theory Spec2Isabelle
  imports Main "HOL-Library.Char_ord" "HOL-Library.List_Lexorder"
begin

section \<open>DS2Backup: a shallow embedding of \<^verbatim>\<open>dsb.py\<close>\<close>

text \<open>
  The program keeps timestamped, optionally named copies of one save file in a backup
  directory. This theory embeds the backup naming scheme, the directory enumeration,
  the selector resolution and the command dispatch of \<^verbatim>\<open>dsb.py\<close>, and proves
  properties of them.

  Modelling conventions.
  \<^item> Python strings are HOL strings. HOL characters are the code points below 256;
    among these the decimal digits (the class \<^verbatim>\<open>\d\<close> of Python's regular
    expressions) are exactly \<^verbatim>\<open>0\<close> to \<^verbatim>\<open>9\<close>.
  \<^item> Exceptions are values: a function that may raise returns \<open>error + 'a\<close>, with
    \<open>Inl\<close> for the exception.
  \<^item> The file system is an explicit state: the immediate children of the backup
    directory, in the order in which the directory is enumerated, and, for every other
    path and for the refusals of the operating system (a name that is too long, a
    missing permission), what the operating system answers. Paths are written as the
    string that is joined to the backup directory, in pathlib's POSIX flavour. A path
    is identified by its normalised text: \<^verbatim>\<open>..\<close> and symbolic links are not
    resolved, and a directory entry is a regular file or a directory.
  \<^item> The start-up code (\<^verbatim>\<open>gen_save_file_path\<close>, \<^verbatim>\<open>SaveFile\<close>,
    \<^verbatim>\<open>main\<close>) and the interactive loop are not embedded: the save file is part of
    the world, and a command line arrives as a list of tokens.
  \<^item> The library functions the program calls (\<^verbatim>\<open>datetime.strftime\<close>,
    \<^verbatim>\<open>datetime.strptime\<close>, \<^verbatim>\<open>pathlib\<close>, \<^verbatim>\<open>shutil.copy\<close>) are
    modelled after CPython 3.11.
\<close>

subsection \<open>Exceptions\<close>

text \<open>
  The exception classes the program defines or meets. \<open>KeyboardInterrupt\<close> and
  \<open>SystemExit\<close> derive from \<^verbatim>\<open>BaseException\<close> only; every other class derives
  from \<^verbatim>\<open>Exception\<close>. \<open>OSError\<close> and its subclasses, of which \<open>IsADirectoryError\<close>
  and \<open>FileNotFoundError\<close> are two, do not derive from \<^verbatim>\<open>ValueError\<close>.
\<close>

datatype exc_type =
    ValueError
  | TypeError
  | OSError
  | BlockingIOError
  | ChildProcessError
  | BrokenPipeError
  | ConnectionAbortedError
  | ConnectionRefusedError
  | ConnectionResetError
  | FileExistsError
  | FileNotFoundError
  | InterruptedError
  | IsADirectoryError
  | NotADirectoryError
  | PermissionError
  | ProcessLookupError
  | TimeoutError
  | UnknownModeError
  | BackupNotFoundError
  | KeyboardInterrupt
  | SystemExit

text \<open>An exception: its class and its \<^verbatim>\<open>args\<close>, each already rendered by \<^verbatim>\<open>str\<close>.\<close>

datatype error = Error (kind: exc_type) (exc_args: "string list")

fun type_name :: "exc_type \<Rightarrow> string" where
  "type_name ValueError = ''ValueError''"
| "type_name TypeError = ''TypeError''"
| "type_name OSError = ''OSError''"
| "type_name BlockingIOError = ''BlockingIOError''"
| "type_name ChildProcessError = ''ChildProcessError''"
| "type_name BrokenPipeError = ''BrokenPipeError''"
| "type_name ConnectionAbortedError = ''ConnectionAbortedError''"
| "type_name ConnectionRefusedError = ''ConnectionRefusedError''"
| "type_name ConnectionResetError = ''ConnectionResetError''"
| "type_name FileExistsError = ''FileExistsError''"
| "type_name FileNotFoundError = ''FileNotFoundError''"
| "type_name InterruptedError = ''InterruptedError''"
| "type_name IsADirectoryError = ''IsADirectoryError''"
| "type_name NotADirectoryError = ''NotADirectoryError''"
| "type_name PermissionError = ''PermissionError''"
| "type_name ProcessLookupError = ''ProcessLookupError''"
| "type_name TimeoutError = ''TimeoutError''"
| "type_name UnknownModeError = ''UnknownModeError''"
| "type_name BackupNotFoundError = ''BackupNotFoundError''"
| "type_name KeyboardInterrupt = ''KeyboardInterrupt''"
| "type_name SystemExit = ''SystemExit''"

text \<open>\<^verbatim>\<open>isinstance(err, Exception)\<close>.\<close>

fun is_Exception :: "exc_type \<Rightarrow> bool" where
  "is_Exception KeyboardInterrupt = False"
| "is_Exception SystemExit = False"
| "is_Exception _ = True"

text \<open>
  The class of the exception that the interpreter raises for an error number of the
  operating system (the numbers are those of Linux): \<^verbatim>\<open>OSError\<close> itself unless
  the number has a subclass of its own.
\<close>

definition errno_class :: "nat \<Rightarrow> exc_type" where
  "errno_class n =
     (if n = 1 \<or> n = 13 then PermissionError
      else if n = 2 then FileNotFoundError
      else if n = 3 then ProcessLookupError
      else if n = 4 then InterruptedError
      else if n = 10 then ChildProcessError
      else if n = 11 \<or> n = 114 \<or> n = 115 then BlockingIOError
      else if n = 17 then FileExistsError
      else if n = 20 then NotADirectoryError
      else if n = 21 then IsADirectoryError
      else if n = 32 \<or> n = 108 then BrokenPipeError
      else if n = 103 then ConnectionAbortedError
      else if n = 104 then ConnectionResetError
      else if n = 110 then TimeoutError
      else if n = 111 then ConnectionRefusedError
      else OSError)"

subsection \<open>Strings\<close>

definition digit_char :: "nat \<Rightarrow> char" where
  "digit_char n = char_of (48 + n)"

definition digit_val :: "char \<Rightarrow> nat" where
  "digit_val c = of_char c - 48"

text \<open>A character class \<^verbatim>\<open>[lo-hi]\<close> of a regular expression.\<close>

definition in_class :: "char \<Rightarrow> char \<Rightarrow> char \<Rightarrow> bool" where
  "in_class lo hi c \<longleftrightarrow> (of_char lo :: nat) \<le> of_char c \<and> (of_char c :: nat) \<le> of_char hi"

abbreviation is_digit :: "char \<Rightarrow> bool" where
  "is_digit \<equiv> in_class (CHR ''0'') (CHR ''9'')"

text \<open>\<^verbatim>\<open>str(n)\<close> for a non-negative integer: decimal, no leading zeros.\<close>

function show_nat :: "nat \<Rightarrow> string" where
  "show_nat n = (if n < 10 then [digit_char n] else show_nat (n div 10) @ [digit_char (n mod 10)])"
  by pat_completeness auto
termination
  by (relation "measure id") auto

declare show_nat.simps [simp del]

text \<open>
  The exception for a failed call of the operating system: its \<^verbatim>\<open>args\<close> are the
  error number and the message of \<^verbatim>\<open>strerror\<close>.
\<close>

definition os_error :: "nat \<Rightarrow> string \<Rightarrow> error" where
  "os_error n s = Error (errno_class n) [show_nat n, s]"

text \<open>\<^verbatim>\<open>s.zfill(w)\<close> on a string of digits; \<^verbatim>\<open>'%02d' % n\<close> is \<open>zfill 2 (show_nat n)\<close>.\<close>

definition zfill :: "nat \<Rightarrow> string \<Rightarrow> string" where
  "zfill w s = replicate (w - length s) (CHR ''0'') @ s"

text \<open>\<^verbatim>\<open>sep.join(xs)\<close>.\<close>

fun join :: "string \<Rightarrow> string list \<Rightarrow> string" where
  "join sep [] = []"
| "join sep [x] = x"
| "join sep (x # y # ys) = x @ sep @ join sep (y # ys)"

text \<open>\<^verbatim>\<open>s.split(c)\<close> for a one-character separator.\<close>

fun split_on :: "char \<Rightarrow> string \<Rightarrow> string list" where
  "split_on c [] = [[]]"
| "split_on c (x # xs) =
     (if x = c then [] # split_on c xs
      else (case split_on c xs of [] \<Rightarrow> [[x]] | y # ys \<Rightarrow> (x # y) # ys))"

text \<open>
  \<^verbatim>\<open>s.partition(c)\<close> for a one-character separator: the part before the first
  occurrence, the separator, the part after; \<open>(s, '''', '''')\<close> when \<open>c\<close> does not occur.
\<close>

definition str_partition :: "char \<Rightarrow> string \<Rightarrow> string \<times> string \<times> string" where
  "str_partition c s =
     (case dropWhile (\<lambda>x. x \<noteq> c) s of
        [] \<Rightarrow> (s, [], [])
      | _ # after \<Rightarrow> (takeWhile (\<lambda>x. x \<noteq> c) s, [c], after))"

text \<open>\<^verbatim>\<open>s.rfind(c)\<close>: the index of the last occurrence, or \<open>-1\<close>.\<close>

definition rfind :: "char \<Rightarrow> string \<Rightarrow> int" where
  "rfind c s =
     (if c \<in> set s then int (length s) - 1 - int (length (takeWhile (\<lambda>x. x \<noteq> c) (rev s)))
      else - 1)"

text \<open>\<^verbatim>\<open>s.endswith(suf)\<close>.\<close>

definition endswith :: "string \<Rightarrow> string \<Rightarrow> bool" where
  "endswith suf s \<longleftrightarrow> length suf \<le> length s \<and> drop (length s - length suf) s = suf"

subsection \<open>Constants\<close>

text \<open>
  A \<^verbatim>\<open>strftime\<close>/\<^verbatim>\<open>strptime\<close> format is a list of directives and literal
  characters: \<open>Dir_y\<close> is \<^verbatim>\<open>%y\<close>, and so on.
\<close>

datatype directive = Dir_Y | Dir_y | Dir_m | Dir_d | Dir_H | Dir_M | Dir_S | Lit char

text \<open>\<^verbatim>\<open>TIME_DISPLAY_FORMAT = r'%Y/%m/%d %H:%M:%S'\<close>\<close>

definition TIME_DISPLAY_FORMAT :: "directive list" where
  "TIME_DISPLAY_FORMAT =
     [Dir_Y, Lit (CHR ''/''), Dir_m, Lit (CHR ''/''), Dir_d, Lit (CHR '' ''),
      Dir_H, Lit (CHR '':''), Dir_M, Lit (CHR '':''), Dir_S]"

text \<open>\<^verbatim>\<open>TIME_FILE_FORMAT = r'%y%m%d%H%M%S'\<close>\<close>

definition TIME_FILE_FORMAT :: "directive list" where
  "TIME_FILE_FORMAT = [Dir_y, Dir_m, Dir_d, Dir_H, Dir_M, Dir_S]"

text \<open>\<^verbatim>\<open>SAVE_FILE_SUFFIX = r'.sl2'\<close>\<close>

definition SAVE_FILE_SUFFIX :: string where
  "SAVE_FILE_SUFFIX = ''.sl2''"

fun directive_text :: "directive \<Rightarrow> string" where
  "directive_text Dir_Y = ''%Y''"
| "directive_text Dir_y = ''%y''"
| "directive_text Dir_m = ''%m''"
| "directive_text Dir_d = ''%d''"
| "directive_text Dir_H = ''%H''"
| "directive_text Dir_M = ''%M''"
| "directive_text Dir_S = ''%S''"
| "directive_text (Lit c) = [c]"

definition format_text :: "directive list \<Rightarrow> string" where
  "format_text fmt = concat (map directive_text fmt)"

subsection \<open>\<^verbatim>\<open>datetime\<close>\<close>

text \<open>A naive \<^verbatim>\<open>datetime\<close>: the program never attaches a time zone.\<close>

record datetime =
  year :: nat
  month :: nat
  day :: nat
  hour :: nat
  minute :: nat
  second :: nat
  microsecond :: nat

definition is_leap :: "nat \<Rightarrow> bool" where
  "is_leap y \<longleftrightarrow> y mod 4 = 0 \<and> (y mod 100 \<noteq> 0 \<or> y mod 400 = 0)"

definition days_in_month :: "nat \<Rightarrow> nat \<Rightarrow> nat" where
  "days_in_month y m =
     (if m = 2 then (if is_leap y then 29 else 28)
      else if m = 4 \<or> m = 6 \<or> m = 9 \<or> m = 11 then 30 else 31)"

text \<open>The values a \<^verbatim>\<open>datetime\<close> object can hold.\<close>

definition valid_datetime :: "datetime \<Rightarrow> bool" where
  "valid_datetime t \<longleftrightarrow>
     1 \<le> year t \<and> year t \<le> 9999 \<and> 1 \<le> month t \<and> month t \<le> 12 \<and>
     1 \<le> day t \<and> day t \<le> days_in_month (year t) (month t) \<and>
     hour t < 24 \<and> minute t < 60 \<and> second t < 60 \<and> microsecond t < 1000000"

text \<open>
  The constructor \<^verbatim>\<open>datetime(y, m, d, H, M, S, us)\<close>, with its range checks in
  CPython's order; each failure is a \<^verbatim>\<open>ValueError\<close>.
\<close>

definition datetime_new ::
  "nat \<Rightarrow> nat \<Rightarrow> nat \<Rightarrow> nat \<Rightarrow> nat \<Rightarrow> nat \<Rightarrow> nat \<Rightarrow> error + datetime" where
  "datetime_new y m d H M S us =
     (if \<not> (1 \<le> y \<and> y \<le> 9999) then
        Inl (Error ValueError [''year '' @ show_nat y @ '' is out of range''])
      else if \<not> (1 \<le> m \<and> m \<le> 12) then Inl (Error ValueError [''month must be in 1..12''])
      else if \<not> (1 \<le> d \<and> d \<le> days_in_month y m) then
        Inl (Error ValueError [''day is out of range for month''])
      else if \<not> H < 24 then Inl (Error ValueError [''hour must be in 0..23''])
      else if \<not> M < 60 then Inl (Error ValueError [''minute must be in 0..59''])
      else if \<not> S < 60 then Inl (Error ValueError [''second must be in 0..59''])
      else if \<not> us < 1000000 then Inl (Error ValueError [''microsecond must be in 0..999999''])
      else Inr \<lparr>year = y, month = m, day = d, hour = H, minute = M, second = S,
                microsecond = us\<rparr>)"

text \<open>
  The order of \<^verbatim>\<open>datetime\<close> objects (\<^verbatim>\<open>t1 < t2\<close>): lexicographic on the
  fields, most significant first.
\<close>

definition datetime_key :: "datetime \<Rightarrow> nat list" where
  "datetime_key t = [year t, month t, day t, hour t, minute t, second t, microsecond t]"

fun lex_less :: "nat list \<Rightarrow> nat list \<Rightarrow> bool" where
  "lex_less (a # as) (b # bs) = (a < b \<or> (a = b \<and> lex_less as bs))"
| "lex_less _ _ = False"

definition earlier :: "datetime \<Rightarrow> datetime \<Rightarrow> bool" where
  "earlier t1 t2 = lex_less (datetime_key t1) (datetime_key t2)"

text \<open>A time truncated to whole seconds.\<close>

definition truncate_seconds :: "datetime \<Rightarrow> datetime" where
  "truncate_seconds t = t\<lparr>microsecond := 0\<rparr>"

subsubsection \<open>\<^verbatim>\<open>strftime\<close>\<close>

text \<open>
  Each numeric directive prints its field in decimal, padded with zeros to its width:
  two digits, four for \<^verbatim>\<open>%Y\<close>; \<^verbatim>\<open>%y\<close> prints the year modulo 100.
  (The C libraries differ on \<^verbatim>\<open>%Y\<close> for years below 1000; the program displays only
  times that it has read back, whose years have four digits.)
\<close>

fun strftime_directive :: "datetime \<Rightarrow> directive \<Rightarrow> string" where
  "strftime_directive t Dir_Y = zfill 4 (show_nat (year t))"
| "strftime_directive t Dir_y = zfill 2 (show_nat (year t mod 100))"
| "strftime_directive t Dir_m = zfill 2 (show_nat (month t))"
| "strftime_directive t Dir_d = zfill 2 (show_nat (day t))"
| "strftime_directive t Dir_H = zfill 2 (show_nat (hour t))"
| "strftime_directive t Dir_M = zfill 2 (show_nat (minute t))"
| "strftime_directive t Dir_S = zfill 2 (show_nat (second t))"
| "strftime_directive t (Lit c) = [c]"

text \<open>\<^verbatim>\<open>t.strftime(fmt)\<close>\<close>

definition strftime :: "datetime \<Rightarrow> directive list \<Rightarrow> string" where
  "strftime t fmt = concat (map (strftime_directive t) fmt)"

subsubsection \<open>\<^verbatim>\<open>strptime\<close>\<close>

text \<open>
  \<^verbatim>\<open>_strptime\<close> turns the format into a regular expression, one group per
  directive, each group an alternation:
  \<^verbatim>\<open>
    'd': r"(?P<d>3[0-1]|[1-2]\d|0[1-9]|[1-9]| [1-9])",
    'H': r"(?P<H>2[0-3]|[0-1]\d|\d)",
    'm': r"(?P<m>1[0-2]|0[1-9]|[1-9])",
    'M': r"(?P<M>[0-5]\d|\d)",
    'S': r"(?P<S>6[0-1]|[0-5]\d|\d)",
    'y': r"(?P<y>\d\d)",
    'Y': r"(?P<Y>\d\d\d\d)",
  \<close>
  and matches it with \<^verbatim>\<open>re.match\<close>, which backtracks: the alternatives of a
  group are tried in order, and the first way through the whole expression wins, whether
  or not it consumes the whole string. A matcher returns every way to match a prefix of
  the input, in the order in which backtracking finds them, each with the number read
  (\<^verbatim>\<open>int\<close> of the matched text) and the rest of the input.
\<close>

type_synonym matcher = "string \<Rightarrow> (nat \<times> string) list"

text \<open>One character of a class.\<close>

fun one_of :: "(char \<Rightarrow> bool) \<Rightarrow> matcher" where
  "one_of p (a # r) = (if p a then [(digit_val a, r)] else [])"
| "one_of p [] = []"

text \<open>Two characters, each of a class.\<close>

fun two_of :: "(char \<Rightarrow> bool) \<Rightarrow> (char \<Rightarrow> bool) \<Rightarrow> matcher" where
  "two_of p q (a # b # r) = (if p a \<and> q b then [(10 * digit_val a + digit_val b, r)] else [])"
| "two_of p q _ = []"

text \<open>A space, then one character of a class: \<^verbatim>\<open>int(' 7')\<close> is 7.\<close>

fun space_then :: "(char \<Rightarrow> bool) \<Rightarrow> matcher" where
  "space_then q (a # b # r) = (if a = CHR '' '' \<and> q b then [(digit_val b, r)] else [])"
| "space_then q _ = []"

fun four_digits :: matcher where
  "four_digits (a # b # c # d # r) =
     (if is_digit a \<and> is_digit b \<and> is_digit c \<and> is_digit d
      then [(1000 * digit_val a + 100 * digit_val b + 10 * digit_val c + digit_val d, r)]
      else [])"
| "four_digits _ = []"

text \<open>
  The group of one directive. A literal character of the format matches itself (the
  formats of this program that are parsed hold no literal).
\<close>

fun directive_regex :: "directive \<Rightarrow> matcher" where
  "directive_regex Dir_Y s = four_digits s"
| "directive_regex Dir_y s = two_of is_digit is_digit s"
| "directive_regex Dir_m s =
     two_of (in_class (CHR ''1'') (CHR ''1'')) (in_class (CHR ''0'') (CHR ''2'')) s
     @ two_of (in_class (CHR ''0'') (CHR ''0'')) (in_class (CHR ''1'') (CHR ''9'')) s
     @ one_of (in_class (CHR ''1'') (CHR ''9'')) s"
| "directive_regex Dir_d s =
     two_of (in_class (CHR ''3'') (CHR ''3'')) (in_class (CHR ''0'') (CHR ''1'')) s
     @ two_of (in_class (CHR ''1'') (CHR ''2'')) is_digit s
     @ two_of (in_class (CHR ''0'') (CHR ''0'')) (in_class (CHR ''1'') (CHR ''9'')) s
     @ one_of (in_class (CHR ''1'') (CHR ''9'')) s
     @ space_then (in_class (CHR ''1'') (CHR ''9'')) s"
| "directive_regex Dir_H s =
     two_of (in_class (CHR ''2'') (CHR ''2'')) (in_class (CHR ''0'') (CHR ''3'')) s
     @ two_of (in_class (CHR ''0'') (CHR ''1'')) is_digit s
     @ one_of is_digit s"
| "directive_regex Dir_M s =
     two_of (in_class (CHR ''0'') (CHR ''5'')) is_digit s
     @ one_of is_digit s"
| "directive_regex Dir_S s =
     two_of (in_class (CHR ''6'') (CHR ''6'')) (in_class (CHR ''0'') (CHR ''1'')) s
     @ two_of (in_class (CHR ''0'') (CHR ''5'')) is_digit s
     @ one_of is_digit s"
| "directive_regex (Lit c) s = (case s of [] \<Rightarrow> [] | a # r \<Rightarrow> if a = c then [(0, r)] else [])"

text \<open>
  The whole expression: the groups in sequence. Each result is the list of groups found
  (directive and number) and the unconsumed rest.
\<close>

fun match_format :: "directive list \<Rightarrow> string \<Rightarrow> ((directive \<times> nat) list \<times> string) list" where
  "match_format [] s = [([], s)]"
| "match_format (d # ds) s =
     concat (map (\<lambda>(v, r). map (\<lambda>(found, r'). ((d, v) # found, r')) (match_format ds r))
                 (directive_regex d s))"

text \<open>
  The fields read from the groups, with \<^verbatim>\<open>_strptime\<close>'s defaults
  (\<^verbatim>\<open>year = None\<close>, which becomes 1900; \<^verbatim>\<open>month = day = 1\<close>;
  \<^verbatim>\<open>hour = minute = second = 0\<close>). A two-digit year up to 68 is in the century
  2000, from 69 on in the century 1900.
\<close>

fun read_group :: "datetime \<Rightarrow> directive \<times> nat \<Rightarrow> datetime" where
  "read_group t (Dir_Y, v) = t\<lparr>year := v\<rparr>"
| "read_group t (Dir_y, v) = t\<lparr>year := (if v \<le> 68 then v + 2000 else v + 1900)\<rparr>"
| "read_group t (Dir_m, v) = t\<lparr>month := v\<rparr>"
| "read_group t (Dir_d, v) = t\<lparr>day := v\<rparr>"
| "read_group t (Dir_H, v) = t\<lparr>hour := v\<rparr>"
| "read_group t (Dir_M, v) = t\<lparr>minute := v\<rparr>"
| "read_group t (Dir_S, v) = t\<lparr>second := v\<rparr>"
| "read_group t (Lit c, v) = t"

definition strptime_defaults :: datetime where
  "strptime_defaults =
     \<lparr>year = 1900, month = 1, day = 1, hour = 0, minute = 0, second = 0, microsecond = 0\<rparr>"

text \<open>
  \<^verbatim>\<open>repr\<close> of a string. The quotes are double when the string holds a single quote
  and no double quote, and single otherwise. The quote character and the backslash are
  escaped with a backslash; tab, line feed and carriage return are written
  \<^verbatim>\<open>\t\<close>, \<^verbatim>\<open>\n\<close>, \<^verbatim>\<open>\r\<close>; every other character that is not printable
  (below 32, from 127 to 160, and 173) is written \<^verbatim>\<open>\xhh\<close>.
\<close>

definition hex_digit :: "nat \<Rightarrow> char" where
  "hex_digit n = (if n < 10 then char_of (48 + n) else char_of (87 + n))"

definition repr_char :: "char \<Rightarrow> char \<Rightarrow> string" where
  "repr_char q c =
     (if c = q \<or> c = CHR 0x5C then [CHR 0x5C, c]
      else if c = CHR 0x09 then [CHR 0x5C, CHR ''t'']
      else if c = CHR 0x0A then [CHR 0x5C, CHR ''n'']
      else if c = CHR 0x0D then [CHR 0x5C, CHR ''r'']
      else if (of_char c :: nat) < 32 \<or> (127 \<le> (of_char c :: nat) \<and> (of_char c :: nat) \<le> 160)
              \<or> (of_char c :: nat) = 173
      then [CHR 0x5C, CHR ''x'', hex_digit (of_char c div 16), hex_digit (of_char c mod 16)]
      else [c])"

definition repr :: "string \<Rightarrow> string" where
  "repr s =
     (let q = (if CHR 0x27 \<in> set s \<and> CHR 0x22 \<notin> set s then CHR 0x22 else CHR 0x27)
      in [q] @ concat (map (repr_char q) s) @ [q])"

text \<open>
  \<^verbatim>\<open>datetime.strptime(data_string, fmt)\<close>: no match, a match that leaves
  unconverted data, a date that does not exist and a second of 60 or 61 all raise
  \<^verbatim>\<open>ValueError\<close>.
\<close>

definition strptime :: "string \<Rightarrow> directive list \<Rightarrow> error + datetime" where
  "strptime data_string fmt =
     (case match_format fmt data_string of
        [] \<Rightarrow> Inl (Error ValueError
                [''time data '' @ repr data_string @ '' does not match format ''
                 @ repr (format_text fmt)])
      | (found, rest) # _ \<Rightarrow>
          if rest \<noteq> [] then Inl (Error ValueError [''unconverted data remains: '' @ rest])
          else (let t = foldl read_group strptime_defaults found
                in datetime_new (year t) (month t) (day t) (hour t) (minute t) (second t) 0))"

subsection \<open>Paths and the file system\<close>

text \<open>
  A path is written as the string that was joined to the backup directory. Its parts
  are what lies between the separators, without the empty parts and the parts
  \<^verbatim>\<open>.\<close>, as \<^verbatim>\<open>pathlib\<close> normalises them.
\<close>

definition parts :: "string \<Rightarrow> string list" where
  "parts p = filter (\<lambda>c. c \<noteq> [] \<and> c \<noteq> ''.'') (split_on (CHR ''/'') p)"

text \<open>\<^verbatim>\<open>gen_backup_dir_path\<close>\<close>

definition gen_backup_dir_path :: string where
  "gen_backup_dir_path = ''files''"

text \<open>
  A string that starts with a separator is an absolute path, and joining it to the
  backup directory gives the string's own path. Its root is \<^verbatim>\<open>//\<close> when it
  starts with exactly two separators and \<^verbatim>\<open>/\<close> otherwise.
\<close>

definition is_absolute :: "string \<Rightarrow> bool" where
  "is_absolute p = (case p of [] \<Rightarrow> False | c # _ \<Rightarrow> c = CHR ''/'')"

definition root :: "string \<Rightarrow> string" where
  "root p = (if length (takeWhile (\<lambda>c. c = CHR ''/'') p) = 2 then ''//'' else ''/'')"

text \<open>
  \<^verbatim>\<open>Path.name\<close>: the final part; of the backup directory itself, the name of the
  directory; of a root, the empty string.
\<close>

definition path_name :: "string \<Rightarrow> string" where
  "path_name p =
     (if is_absolute p then (case parts p of [] \<Rightarrow> [] | _ # _ \<Rightarrow> last (parts p))
      else last (gen_backup_dir_path # parts p))"

text \<open>
  \<^verbatim>\<open>Path.stem\<close>: the name without its suffix. The suffix starts at the last dot
  of the name, unless that dot is the first or the last character.
\<close>

definition path_stem :: "string \<Rightarrow> string" where
  "path_stem p =
     (let name = path_name p; i = rfind (CHR ''.'') name
      in if 0 < i \<and> i < int (length name) - 1 then take (nat i) name else name)"

text \<open>\<^verbatim>\<open>str(path)\<close>\<close>

definition str_path :: "string \<Rightarrow> string" where
  "str_path p =
     (if is_absolute p then root p @ join ''/'' (parts p)
      else join ''/'' (gen_backup_dir_path # parts p))"

text \<open>
  The name under which a path is a child of the backup directory: the path is
  relative and has one part, which is not \<^verbatim>\<open>..\<close>.
\<close>

definition child_of :: "string \<Rightarrow> string option" where
  "child_of p =
     (if is_absolute p then None
      else (case parts p of [n] \<Rightarrow> if n = ''..'' then None else Some n | _ \<Rightarrow> None))"

text \<open>What a directory entry is: a regular file with its content, or a directory.\<close>

datatype node = RegularFile string | Directory

text \<open>
  The two places \<^verbatim>\<open>copy_file\<close> reads and writes: the save file, a backup path. The
  operations that the operating system can refuse: reading a file, writing a copy to a
  path, removing a file.
\<close>

datatype location = SavePath | BackupPath string

datatype operation = ReadFrom | CopyTo | Unlink

text \<open>
  The world the handler acts on:
  \<^item> \<open>entries\<close>: the immediate children of the backup directory, by name, in the
    order in which the file system enumerates them;
  \<^item> \<open>elsewhere\<close>: what \<^verbatim>\<open>os.stat\<close> answers for a path that is not among the
    entries, given as \<^verbatim>\<open>str(path)\<close>: an error number with its message, or what is
    there;
  \<^item> \<open>os_refuses\<close>: the error number and message with which the operating system
    refuses an operation on the save file or on a path, given as \<^verbatim>\<open>str(path)\<close>;
    \<open>None\<close> when it does not refuse;
  \<^item> \<open>save_data\<close>: the content of the live save file, \<open>None\<close> when it is missing;
  \<^item> \<open>now\<close>: what \<^verbatim>\<open>datetime.now()\<close> returns;
  \<^item> \<open>slot\<close>: the position at which the file system enumerates a newly created entry;
  \<^item> \<open>running\<close>: the attribute \<^verbatim>\<open>CommandHandler.running\<close>.
\<close>

record world =
  entries :: "(string \<times> node) list"
  elsewhere :: "string \<Rightarrow> (nat \<times> string) + node"
  os_refuses :: "operation \<Rightarrow> location \<Rightarrow> (nat \<times> string) option"
  save_data :: "string option"
  now :: datetime
  slot :: nat
  running :: "bool option"

text \<open>
  The key under which a path is looked up among the entries: the path as it is written
  when it is listed so, and otherwise its name as a child of the backup directory
  (\<^verbatim>\<open>./x\<close> is \<^verbatim>\<open>x\<close>).
\<close>

definition entry_key :: "(string \<times> node) list \<Rightarrow> string \<Rightarrow> string" where
  "entry_key es p =
     (case map_of es p of
        Some _ \<Rightarrow> p
      | None \<Rightarrow> (case child_of p of Some n \<Rightarrow> n | None \<Rightarrow> p))"

text \<open>
  How a call of the operating system on a path fails: the interpreter refuses a path
  with a null byte before it asks the operating system (\<^verbatim>\<open>ValueError\<close>), or the
  operating system answers with an error number (\<^verbatim>\<open>OSError\<close>).
\<close>

datatype failure = NullByte | Errno nat string

fun raise_failure :: "failure \<Rightarrow> error" where
  "raise_failure NullByte = Error ValueError [''embedded null byte'']"
| "raise_failure (Errno n s) = os_error n s"

text \<open>
  \<^verbatim>\<open>os.stat(path)\<close>: what is listed is there; for any other path the operating
  system answers.
\<close>

definition os_stat :: "world \<Rightarrow> string \<Rightarrow> failure + node" where
  "os_stat w p =
     (case map_of (entries w) (entry_key (entries w) p) of
        Some n \<Rightarrow> Inr n
      | None \<Rightarrow>
          if CHR 0x00 \<in> set p then Inl NullByte
          else (case elsewhere w (str_path p) of
                  Inl (n, s) \<Rightarrow> Inl (Errno n s)
                | Inr n \<Rightarrow> Inr n))"

text \<open>
  \<^verbatim>\<open>path.exists()\<close> and \<^verbatim>\<open>path.is_file()\<close>: a \<^verbatim>\<open>ValueError\<close> and the
  error numbers 2 (\<^verbatim>\<open>ENOENT\<close>), 20 (\<^verbatim>\<open>ENOTDIR\<close>), 9 (\<^verbatim>\<open>EBADF\<close>) and
  40 (\<^verbatim>\<open>ELOOP\<close>) of \<^verbatim>\<open>os.stat\<close> mean that nothing is there; any other error
  is raised.
\<close>

fun ignore_error :: "failure \<Rightarrow> bool" where
  "ignore_error NullByte = True"
| "ignore_error (Errno n s) = (n = 2 \<or> n = 20 \<or> n = 9 \<or> n = 40)"

definition path_exists :: "world \<Rightarrow> string \<Rightarrow> error + bool" where
  "path_exists w p =
     (case os_stat w p of
        Inr _ \<Rightarrow> Inr True
      | Inl f \<Rightarrow> if ignore_error f then Inr False else Inl (raise_failure f))"

definition path_is_file :: "world \<Rightarrow> string \<Rightarrow> error + bool" where
  "path_is_file w p =
     (case os_stat w p of
        Inr (RegularFile _) \<Rightarrow> Inr True
      | Inr Directory \<Rightarrow> Inr False
      | Inl f \<Rightarrow> if ignore_error f then Inr False else Inl (raise_failure f))"

text \<open>\<^verbatim>\<open>self.path.glob(f'*{SAVE_FILE_SUFFIX}')\<close>: the entries whose name ends in the suffix.\<close>

definition glob :: "world \<Rightarrow> string list" where
  "glob w = filter (endswith SAVE_FILE_SUFFIX) (map fst (entries w))"

definition ENOENT :: error where
  "ENOENT = Error FileNotFoundError [''2'', ''No such file or directory'']"

definition EISDIR :: error where
  "EISDIR = Error IsADirectoryError [''21'', ''Is a directory'']"

text \<open>A location as the operating system sees it: a backup path as \<^verbatim>\<open>str(path)\<close>.\<close>

fun os_location :: "location \<Rightarrow> location" where
  "os_location SavePath = SavePath"
| "os_location (BackupPath p) = BackupPath (str_path p)"

text \<open>Opening a file and reading it.\<close>

definition read_file :: "world \<Rightarrow> location \<Rightarrow> error + string" where
  "read_file w src =
     (case os_refuses w ReadFrom (os_location src) of
        Some (n, s) \<Rightarrow> Inl (os_error n s)
      | None \<Rightarrow>
          (case src of
             SavePath \<Rightarrow> (case save_data w of None \<Rightarrow> Inl ENOENT | Some c \<Rightarrow> Inr c)
           | BackupPath p \<Rightarrow>
               (case os_stat w p of
                  Inl f \<Rightarrow> Inl (raise_failure f)
                | Inr Directory \<Rightarrow> Inl EISDIR
                | Inr (RegularFile c) \<Rightarrow> Inr c)))"

text \<open>
  A regular file with the content \<open>c\<close> at a backup path: a listed file is overwritten
  where it stands; a new child of the backup directory appears at position \<open>slot\<close> of
  the enumeration; a file at any other path is recorded there.
\<close>

definition put_file :: "world \<Rightarrow> string \<Rightarrow> string \<Rightarrow> world" where
  "put_file w p c =
     (let k = entry_key (entries w) p
      in case map_of (entries w) k of
           Some _ \<Rightarrow>
             w\<lparr>entries := map (\<lambda>(k', v). if k' = k then (k', RegularFile c) else (k', v)) (entries w)\<rparr>
         | None \<Rightarrow>
             (case child_of p of
                Some n \<Rightarrow>
                  w\<lparr>entries := take (slot w) (entries w) @ [(n, RegularFile c)]
                                 @ drop (slot w) (entries w)\<rparr>
              | None \<Rightarrow> w\<lparr>elsewhere := (elsewhere w)(str_path p := Inr (RegularFile c))\<rparr>))"

text \<open>
  Writing the copy, unless the operating system refuses it. \<^verbatim>\<open>shutil.copy\<close> onto
  a directory copies into it, under the name of the source: the entries stay as they
  are, and what a directory holds is not part of the world. A refused copy leaves the
  world as it was.
\<close>

definition write_file :: "world \<Rightarrow> location \<Rightarrow> string \<Rightarrow> error + world" where
  "write_file w dst c =
     (case os_refuses w CopyTo (os_location dst) of
        Some (n, s) \<Rightarrow> Inl (os_error n s)
      | None \<Rightarrow>
          (case dst of
             SavePath \<Rightarrow> Inr (w\<lparr>save_data := Some c\<rparr>)
           | BackupPath p \<Rightarrow>
               (case os_stat w p of
                  Inl NullByte \<Rightarrow> Inl (raise_failure NullByte)
                | Inr Directory \<Rightarrow> Inr w
                | _ \<Rightarrow> Inr (put_file w p c))))"

text \<open>
  \<^verbatim>\<open>copy_file(src, dst)\<close>, that is \<^verbatim>\<open>shutil.copy\<close>: it calls \<^verbatim>\<open>os.stat\<close>
  on both paths before it opens the source, and only an \<^verbatim>\<open>OSError\<close> of these
  calls is ignored.
\<close>

fun null_byte :: "world \<Rightarrow> location \<Rightarrow> bool" where
  "null_byte w SavePath = False"
| "null_byte w (BackupPath p) = (os_stat w p = Inl NullByte)"

definition copy_file :: "world \<Rightarrow> location \<Rightarrow> location \<Rightarrow> error + world" where
  "copy_file w src dst =
     (if null_byte w src \<or> null_byte w dst then Inl (raise_failure NullByte)
      else (case read_file w src of Inl e \<Rightarrow> Inl e | Inr c \<Rightarrow> write_file w dst c))"

text \<open>\<^verbatim>\<open>delete_file(src)\<close>, that is \<^verbatim>\<open>src.unlink()\<close>\<close>

definition delete_file :: "world \<Rightarrow> string \<Rightarrow> error + world" where
  "delete_file w p =
     (case os_stat w p of
        Inl NullByte \<Rightarrow> Inl (raise_failure NullByte)
      | st \<Rightarrow>
          (case os_refuses w Unlink (BackupPath (str_path p)) of
             Some (n, s) \<Rightarrow> Inl (os_error n s)
           | None \<Rightarrow>
               (case st of
                  Inl f \<Rightarrow> Inl (raise_failure f)
                | Inr Directory \<Rightarrow> Inl EISDIR
                | Inr (RegularFile _) \<Rightarrow>
                    (let k = entry_key (entries w) p
                     in case map_of (entries w) k of
                          Some _ \<Rightarrow> Inr (w\<lparr>entries := filter (\<lambda>(k', v). k' \<noteq> k) (entries w)\<rparr>)
                        | None \<Rightarrow>
                            Inr (w\<lparr>elsewhere := (elsewhere w)
                                      (str_path p := Inl (2, ''No such file or directory''))\<rparr>)))))"

subsection \<open>\<^verbatim>\<open>class Backup\<close>\<close>

record backup =
  path :: string

text \<open>\<^verbatim>\<open>Backup.name\<close>: \<^verbatim>\<open>self.path.stem.partition('-')[2]\<close>\<close>

definition backup_name :: "backup \<Rightarrow> string" where
  "backup_name b = (case str_partition (CHR ''-'') (path_stem (path b)) of (_, _, after) \<Rightarrow> after)"

text \<open>\<^verbatim>\<open>Backup.time\<close>: \<^verbatim>\<open>datetime.strptime(self.path.stem.partition('-')[0], TIME_FILE_FORMAT)\<close>\<close>

definition backup_time :: "backup \<Rightarrow> error + datetime" where
  "backup_time b =
     (case str_partition (CHR ''-'') (path_stem (path b)) of
        (segment, _, _) \<Rightarrow> strptime segment TIME_FILE_FORMAT)"

text \<open>\<^verbatim>\<open>Backup.check\<close>\<close>

definition check :: "world \<Rightarrow> backup \<Rightarrow> error + unit" where
  "check w b =
     (case path_exists w (path b) of
        Inl e \<Rightarrow> Inl e
      | Inr found \<Rightarrow>
          (case (if found then path_is_file w (path b) else Inr True) of
             Inl e \<Rightarrow> Inl e
           | Inr regular \<Rightarrow>
               if found \<and> \<not> regular then Inl (Error IsADirectoryError [str_path (path b)])
               else (case backup_time b of Inl e \<Rightarrow> Inl e | Inr _ \<Rightarrow> Inr ())))"

text \<open>\<^verbatim>\<open>Backup(path)\<close>, that is \<^verbatim>\<open>Backup.__init__\<close>\<close>

definition Backup :: "world \<Rightarrow> string \<Rightarrow> error + backup" where
  "Backup w p = (case check w \<lparr>path = p\<rparr> of Inl e \<Rightarrow> Inl e | Inr _ \<Rightarrow> Inr \<lparr>path = p\<rparr>)"

text \<open>\<^verbatim>\<open>Backup.save\<close>, \<^verbatim>\<open>Backup.load\<close>, \<^verbatim>\<open>Backup.delete\<close>\<close>

definition save :: "world \<Rightarrow> backup \<Rightarrow> error + world" where
  "save w b = copy_file w SavePath (BackupPath (path b))"

definition load :: "world \<Rightarrow> backup \<Rightarrow> error + world" where
  "load w b = copy_file w (BackupPath (path b)) SavePath"

definition delete :: "world \<Rightarrow> backup \<Rightarrow> error + world" where
  "delete w b = delete_file w (path b)"

subsection \<open>\<^verbatim>\<open>class BackupDir\<close>\<close>

text \<open>
  The generator \<^verbatim>\<open>BackupDir.backups\<close>, run to its end over the files that
  \<^verbatim>\<open>glob\<close> produces: the backups it yields, in order, and how it ends. It ends
  with \<open>None\<close> when the files are exhausted or a \<^verbatim>\<open>ValueError\<close> made it
  \<^verbatim>\<open>break\<close>, and with \<open>Some err\<close> when \<^verbatim>\<open>Backup(file)\<close> raised an exception
  that \<^verbatim>\<open>except ValueError\<close> does not catch: the consumer receives the yielded
  backups first and then the exception.
\<close>

fun backups_from :: "world \<Rightarrow> string list \<Rightarrow> backup list \<times> error option" where
  "backups_from w [] = ([], None)"
| "backups_from w (file # files) =
     (case Backup w file of
        Inl err \<Rightarrow> if kind err = ValueError then ([], None) else ([], Some err)
      | Inr backup \<Rightarrow> (case backups_from w files of (bs, r) \<Rightarrow> (backup # bs, r)))"

definition backups :: "world \<Rightarrow> backup list \<times> error option" where
  "backups w = backups_from w (glob w)"

text \<open>
  The loop of \<^verbatim>\<open>BackupDir.find\<close> over \<^verbatim>\<open>enumerate(self.backups, 1)\<close>. The
  state is \<^verbatim>\<open>(backup, ind_match, str_match)\<close>; \<^verbatim>\<open>str(backup)\<close> is the name.
\<close>

fun find_loop ::
  "string \<Rightarrow> nat \<Rightarrow> backup list \<Rightarrow> backup option \<times> backup option \<times> backup option
   \<Rightarrow> backup option \<times> backup option \<times> backup option" where
  "find_loop selector ind [] st = st"
| "find_loop selector ind (b # bs) (backup, ind_match, str_match) =
     find_loop selector (Suc ind) bs
       (Some b,
        if show_nat ind = selector then Some b else ind_match,
        if backup_name b = selector then Some b else str_match)"

text \<open>\<^verbatim>\<open>c and x\<close> as a condition, for \<open>x\<close> an object or \<^verbatim>\<open>None\<close>.\<close>

definition and_then :: "bool \<Rightarrow> 'a option \<Rightarrow> 'a option" where
  "and_then c x = (if c then x else None)"

text \<open>
  \<^verbatim>\<open>BackupDir.find\<close>. An exception out of the generator leaves \<^verbatim>\<open>find\<close>
  from inside the loop.
\<close>

definition find_backup :: "world \<Rightarrow> string \<Rightarrow> error + backup" where
  "find_backup w selector =
     (case backups w of
        (bs, Some err) \<Rightarrow> Inl err
      | (bs, None) \<Rightarrow>
          (case find_loop selector 1 bs (None, None, None) of
             (backup, ind_match, str_match) \<Rightarrow>
               (case and_then (selector = []) backup of
                  Some b \<Rightarrow> Inr b
                | None \<Rightarrow>
                    (case and_then (selector \<noteq> []) ind_match of
                       Some b \<Rightarrow> Inr b
                     | None \<Rightarrow>
                         (case and_then (selector \<noteq> []) str_match of
                            Some b \<Rightarrow> Inr b
                          | None \<Rightarrow> Inl (Error BackupNotFoundError [selector]))))))"

text \<open>
  \<^verbatim>\<open>BackupDir.create(name=None, time=None)\<close>. The joined string starts with the
  digits of the time, so it is a path below the backup directory.
\<close>

definition create :: "world \<Rightarrow> string option \<Rightarrow> datetime option \<Rightarrow> error + backup" where
  "create w name_arg time_arg =
     (let name = (case name_arg of None \<Rightarrow> [] | Some n \<Rightarrow> n);
          time = (case time_arg of None \<Rightarrow> now w | Some t \<Rightarrow> t);
          time_str = strftime time TIME_FILE_FORMAT
      in Backup w (time_str @ (if name \<noteq> [] then ''-'' else []) @ name @ SAVE_FILE_SUFFIX))"

subsection \<open>\<^verbatim>\<open>class Command\<close> and \<^verbatim>\<open>class CommandHandler\<close>\<close>

text \<open>The outcome of a command: the string it returns or the exception it raises, and the world it leaves.\<close>

type_synonym outcome = "(error + string) \<times> world"

text \<open>
  A registered command: its aliases and its function, which receives the handler and
  the positional arguments.
\<close>

record command =
  aliases :: "string list"
  func :: "world \<Rightarrow> string list \<Rightarrow> outcome"

text \<open>
  A replacement field \<^verbatim>\<open>{:FA W.P}\<close> of \<^verbatim>\<open>str.format\<close> applied to a string:
  the string is cut to \<open>P\<close> characters, then padded with the fill character to width
  \<open>W\<close>; when centring, the left side gets the smaller half of the padding.
\<close>

datatype align = AlignLeft | AlignRight | AlignCentre

definition format_field :: "char \<Rightarrow> align \<Rightarrow> nat \<Rightarrow> nat \<Rightarrow> string \<Rightarrow> string" where
  "format_field fill a width prec s =
     (let t = take prec s; n = width - length t
      in case a of
           AlignLeft \<Rightarrow> t @ replicate n fill
         | AlignRight \<Rightarrow> replicate n fill @ t
         | AlignCentre \<Rightarrow> replicate (n div 2) fill @ t @ replicate (n - n div 2) fill)"

text \<open>\<^verbatim>\<open>fstring = '{: >3.3} {: ^19.19}    {: <32.32}'\<close>, applied to three strings.\<close>

definition fstring :: "string \<Rightarrow> string \<Rightarrow> string \<Rightarrow> string" where
  "fstring a b c =
     format_field (CHR '' '') AlignRight 3 3 a @ '' ''
     @ format_field (CHR '' '') AlignCentre 19 19 b @ ''    ''
     @ format_field (CHR '' '') AlignLeft 32 32 c"

text \<open>The rows of the table, one per enumerated backup; \<^verbatim>\<open>backup.time\<close> parses again.\<close>

fun list_rows :: "nat \<Rightarrow> backup list \<Rightarrow> error + string list" where
  "list_rows i [] = Inr []"
| "list_rows i (b # bs) =
     (case backup_time b of
        Inl e \<Rightarrow> Inl e
      | Inr t \<Rightarrow>
          (case list_rows (Suc i) bs of
             Inl e \<Rightarrow> Inl e
           | Inr rows \<Rightarrow>
               Inr (fstring (show_nat i @ ''.'') (strftime t TIME_DISPLAY_FORMAT) (backup_name b)
                    # rows)))"

text \<open>\<^verbatim>\<open>CommandHandler.list\<close>\<close>

definition cmd_list :: "world \<Rightarrow> outcome" where
  "cmd_list w =
     (case backups w of
        (bs, Some err) \<Rightarrow> (Inl err, w)
      | (bs, None) \<Rightarrow>
          if bs = [] then (Inr ''No backups found'', w)
          else (case list_rows 1 bs of
                  Inl e \<Rightarrow> (Inl e, w)
                | Inr rows \<Rightarrow>
                    (Inr (join [CHR 0x0A]
                            (fstring ''Num'' ''Creation time'' ''Name''
                             # fstring (replicate 100 (CHR ''_'')) (replicate 100 (CHR ''_''))
                                 (replicate 100 (CHR ''_''))
                             # rows)), w)))"

text \<open>\<^verbatim>\<open>CommandHandler.save\<close>\<close>

definition cmd_save :: "world \<Rightarrow> string \<Rightarrow> outcome" where
  "cmd_save w selector =
     (case create w (Some selector) None of
        Inl e \<Rightarrow> (Inl e, w)
      | Inr b \<Rightarrow>
          (case save w b of
             Inl e \<Rightarrow> (Inl e, w)
           | Inr w' \<Rightarrow> (Inr (''Saved backup '' @ backup_name b), w')))"

text \<open>\<^verbatim>\<open>CommandHandler.load\<close>\<close>

definition cmd_load :: "world \<Rightarrow> string \<Rightarrow> outcome" where
  "cmd_load w selector =
     (case find_backup w selector of
        Inl e \<Rightarrow> (Inl e, w)
      | Inr b \<Rightarrow>
          (case load w b of
             Inl e \<Rightarrow> (Inl e, w)
           | Inr w' \<Rightarrow> (Inr (''Loaded backup '' @ backup_name b), w')))"

text \<open>\<^verbatim>\<open>CommandHandler.delete\<close>\<close>

definition cmd_delete :: "world \<Rightarrow> string \<Rightarrow> outcome" where
  "cmd_delete w selector =
     (case find_backup w selector of
        Inl e \<Rightarrow> (Inl e, w)
      | Inr b \<Rightarrow>
          (case delete w b of
             Inl e \<Rightarrow> (Inl e, w)
           | Inr w' \<Rightarrow> (Inr (''Deleted backup '' @ backup_name b), w')))"

text \<open>\<^verbatim>\<open>CommandHandler.quit\<close>\<close>

definition cmd_quit :: "world \<Rightarrow> outcome" where
  "cmd_quit w = (Inr ''Quitting...'', w\<lparr>running := Some False\<rparr>)"

text \<open>
  The call \<^verbatim>\<open>command.fun(self, *args)\<close>: Python binds the arguments to the
  parameters first, and raises \<^verbatim>\<open>TypeError\<close> when there are too many. A function
  \<^verbatim>\<open>def f(self)\<close> takes no argument beyond the handler; a function
  \<^verbatim>\<open>def f(self, selector='')\<close> takes at most one.
\<close>

definition call_self :: "string \<Rightarrow> (world \<Rightarrow> outcome) \<Rightarrow> world \<Rightarrow> string list \<Rightarrow> outcome" where
  "call_self qualname f w args =
     (if args = [] then f w
      else (Inl (Error TypeError
                  [qualname @ ''() takes 1 positional argument but ''
                   @ show_nat (1 + length args) @ '' were given'']), w))"

definition call_self_selector ::
  "string \<Rightarrow> (world \<Rightarrow> string \<Rightarrow> outcome) \<Rightarrow> world \<Rightarrow> string list \<Rightarrow> outcome" where
  "call_self_selector qualname f w args =
     (case args of
        [] \<Rightarrow> f w []
      | [selector] \<Rightarrow> f w selector
      | _ \<Rightarrow> (Inl (Error TypeError
                    [qualname @ ''() takes from 1 to 2 positional arguments but ''
                     @ show_nat (1 + length args) @ '' were given'']), w))"

text \<open>
  \<^verbatim>\<open>Command.commands\<close>: the registry, in the order in which the decorators ran.
\<close>

definition commands :: "command list" where
  "commands =
     [\<lparr>aliases = [''list'', ''ls''], func = call_self ''CommandHandler.list'' cmd_list\<rparr>,
      \<lparr>aliases = [''save''], func = call_self_selector ''CommandHandler.save'' cmd_save\<rparr>,
      \<lparr>aliases = [''load''], func = call_self_selector ''CommandHandler.load'' cmd_load\<rparr>,
      \<lparr>aliases = [''delete'', ''del''],
        func = call_self_selector ''CommandHandler.delete'' cmd_delete\<rparr>,
      \<lparr>aliases = [''quit'', ''q''], func = call_self ''CommandHandler.quit'' cmd_quit\<rparr>]"

text \<open>The loop of \<^verbatim>\<open>CommandHandler.execute\<close> over the registry.\<close>

fun execute_scan :: "command list \<Rightarrow> world \<Rightarrow> string \<Rightarrow> string list \<Rightarrow> outcome" where
  "execute_scan [] w cmd args = (Inl (Error UnknownModeError [cmd]), w)"
| "execute_scan (c # cs) w cmd args =
     (if cmd \<in> set (aliases c) then func c w args else execute_scan cs w cmd args)"

text \<open>\<^verbatim>\<open>CommandHandler.execute(cmd='', *args)\<close>\<close>

definition execute :: "world \<Rightarrow> string \<Rightarrow> string list \<Rightarrow> outcome" where
  "execute w cmd args = execute_scan commands w cmd args"

text \<open>
  The call \<^verbatim>\<open>self.execute(*argv)\<close>: an empty \<^verbatim>\<open>argv\<close> leaves \<^verbatim>\<open>cmd\<close>
  at its default, the empty string.

  \<^verbatim>\<open>CommandHandler.execute_safe(argv)\<close>: \<^verbatim>\<open>except Exception\<close> catches the
  instances of \<^verbatim>\<open>Exception\<close>; any other exception leaves \<^verbatim>\<open>execute_safe\<close>.
\<close>

definition execute_unpacked :: "world \<Rightarrow> string list \<Rightarrow> outcome" where
  "execute_unpacked w argv =
     (case argv of [] \<Rightarrow> execute w [] [] | cmd # args \<Rightarrow> execute w cmd args)"

definition execute_safe :: "world \<Rightarrow> string list \<Rightarrow> outcome" where
  "execute_safe w argv =
     (case execute_unpacked w argv of
        (Inr res, w') \<Rightarrow> (Inr res, w')
      | (Inl err, w') \<Rightarrow>
          if is_Exception (kind err)
          then (Inr (join '': '' (type_name (kind err) # exc_args err)), w')
          else (Inl err, w'))"

subsection \<open>Notions used in the statements\<close>

text \<open>The backup object at a path.\<close>

abbreviation backup_at :: "string \<Rightarrow> backup" where
  "backup_at p \<equiv> \<lparr>path = p\<rparr>"

text \<open>
  The timestamp segment of a path: the part of the stem before the first \<^verbatim>\<open>-\<close>,
  which \<^verbatim>\<open>Backup.time\<close> hands to \<^verbatim>\<open>strptime\<close>.
\<close>

definition timestamp_segment :: "string \<Rightarrow> string" where
  "timestamp_segment p = fst (str_partition (CHR ''-'') (path_stem p))"

text \<open>The timestamp segment of a path parses in the compact format.\<close>

definition parses :: "string \<Rightarrow> bool" where
  "parses p = (case strptime (timestamp_segment p) TIME_FILE_FORMAT of
                 Inl _ \<Rightarrow> False | Inr _ \<Rightarrow> True)"

text \<open>
  The guard of \<^verbatim>\<open>Backup.check\<close>: the path exists and is not a regular file, that
  is, \<^verbatim>\<open>exists()\<close> returns \<^verbatim>\<open>True\<close> and \<^verbatim>\<open>is_file()\<close> returns
  \<^verbatim>\<open>False\<close>.
\<close>

definition not_regular :: "world \<Rightarrow> string \<Rightarrow> bool" where
  "not_regular w p \<longleftrightarrow> path_exists w p = Inr True \<and> path_is_file w p = Inr False"

text \<open>
  A directory in which every entry with the save-file suffix is a regular file whose
  timestamp segment parses: its enumeration neither halts early nor raises.
\<close>

definition all_backups_listed :: "world \<Rightarrow> bool" where
  "all_backups_listed w = list_all (\<lambda>f. path_is_file w f = Inr True \<and> parses f) (glob w)"

text \<open>
  A name that can be part of a file name: it holds no path separator and no null
  byte.
\<close>

definition plain_name :: "string \<Rightarrow> bool" where
  "plain_name name \<longleftrightarrow> CHR ''/'' \<notin> set name \<and> CHR 0x00 \<notin> set name"

text \<open>
  The guard lets a path pass: \<^verbatim>\<open>exists()\<close> returns \<^verbatim>\<open>False\<close>, or
  \<^verbatim>\<open>is_file()\<close> returns \<^verbatim>\<open>True\<close>.
\<close>

definition passes_guard :: "world \<Rightarrow> string \<Rightarrow> bool" where
  "passes_guard w p \<longleftrightarrow> path_exists w p = Inr False \<or> path_is_file w p = Inr True"

text \<open>
  The file system takes a backup at a path: the guard lets the path pass, and the
  operating system refuses neither to read the save file nor to write the copy.
\<close>

definition takes_backup :: "world \<Rightarrow> string \<Rightarrow> bool" where
  "takes_backup w p \<longleftrightarrow>
     passes_guard w p
     \<and> os_refuses w ReadFrom SavePath = None
     \<and> os_refuses w CopyTo (BackupPath (str_path p)) = None"

text \<open>
  The years that \<^verbatim>\<open>%y\<close> reads back as written: \<^verbatim>\<open>strptime\<close> places the
  two digits 69 to 99 in the century 1900 and 00 to 68 in the century 2000.
\<close>

definition in_pivot_window :: "datetime \<Rightarrow> bool" where
  "in_pivot_window t \<longleftrightarrow> 1969 \<le> year t \<and> year t \<le> 2068"

definition same_century :: "datetime \<Rightarrow> datetime \<Rightarrow> bool" where
  "same_century t1 t2 \<longleftrightarrow> year t1 div 100 = year t2 div 100"

text \<open>The file name of a backup with a name and a time, as \<^verbatim>\<open>create\<close> builds it.\<close>

definition backup_file_name :: "string \<Rightarrow> datetime \<Rightarrow> string" where
  "backup_file_name name t =
     strftime t TIME_FILE_FORMAT @ (if name \<noteq> [] then ''-'' else []) @ name @ SAVE_FILE_SUFFIX"

text \<open>
  An exception as a registered function raises it: an instance of \<^verbatim>\<open>Exception\<close>
  that is no \<^verbatim>\<open>UnknownModeError\<close>.
\<close>

definition handler_error :: "error \<Rightarrow> bool" where
  "handler_error e \<longleftrightarrow> is_Exception (kind e) \<and> kind e \<noteq> UnknownModeError"

text \<open>No registered command has the token among its aliases.\<close>

definition unregistered :: "string \<Rightarrow> bool" where
  "unregistered cmd \<longleftrightarrow> (\<forall>c \<in> set commands. cmd \<notin> set (aliases c))"

subsection \<open>Example inputs\<close>

definition example_time :: datetime where
  "example_time =
     \<lparr>year = 2025, month = 2, day = 3, hour = 4, minute = 5, second = 6, microsecond = 7\<rparr>"

text \<open>
  An example of a file system. It takes file names of up to 255 characters. The backup
  directory holds the given entries, the directories among them are empty, and a file
  can be created where the directory that is to hold it exists. The program is
  confined to the backup directory: a path that leaves it answers \<^verbatim>\<open>EACCES\<close>.
\<close>

definition name_max :: nat where
  "name_max = 255"

text \<open>The parts of \<^verbatim>\<open>str(path)\<close> below the backup directory, if the path stays there.\<close>

definition below :: "string \<Rightarrow> string list option" where
  "below s =
     (case split_on (CHR ''/'') s of
        [] \<Rightarrow> None
      | c # cs \<Rightarrow> if c = gen_backup_dir_path \<and> ''..'' \<notin> set cs then Some cs else None)"

text \<open>Resolving the parts, one after the other, from the backup directory.\<close>

fun walk :: "(string \<times> node) list \<Rightarrow> string list \<Rightarrow> (nat \<times> string) + node" where
  "walk es [] = Inr Directory"
| "walk es (c # cs) =
     (if name_max < length c then Inl (36, ''File name too long'')
      else (case map_of es c of
              None \<Rightarrow> Inl (2, ''No such file or directory'')
            | Some (RegularFile x) \<Rightarrow>
                if cs = [] then Inr (RegularFile x) else Inl (20, ''Not a directory'')
            | Some Directory \<Rightarrow>
                (case cs of
                   [] \<Rightarrow> Inr Directory
                 | d # _ \<Rightarrow>
                     if name_max < length d then Inl (36, ''File name too long'')
                     else Inl (2, ''No such file or directory''))))"

definition posix_stat :: "(string \<times> node) list \<Rightarrow> string \<Rightarrow> (nat \<times> string) + node" where
  "posix_stat es s =
     (case below s of None \<Rightarrow> Inl (13, ''Permission denied'') | Some cs \<Rightarrow> walk es cs)"

text \<open>
  Reading and removing fail as \<^verbatim>\<open>os.stat\<close> does. A copy is refused when the path
  cannot be resolved, unless only the file itself is missing.
\<close>

definition posix_refuses ::
  "(string \<times> node) list \<Rightarrow> operation \<Rightarrow> location \<Rightarrow> (nat \<times> string) option" where
  "posix_refuses es opn loc =
     (case loc of
        SavePath \<Rightarrow> None
      | BackupPath s \<Rightarrow>
          if opn = CopyTo
          then (case posix_stat es s of
                  Inr _ \<Rightarrow> None
                | Inl (n, t) \<Rightarrow>
                    if n = 2 \<and> map_option (walk es \<circ> butlast) (below s) = Some (Inr Directory)
                    then None else Some (n, t))
          else None)"

text \<open>A world with the given directory entries, an existing save file and a running handler.\<close>

definition world_of :: "(string \<times> node) list \<Rightarrow> world" where
  "world_of es =
     \<lparr>entries = es, elsewhere = posix_stat es, os_refuses = posix_refuses es,
      save_data = Some ''save'', now = example_time, slot = 0, running = Some True\<rparr>"

text \<open>Two backups; the first is named \<^verbatim>\<open>2\<close>.\<close>

definition two_backups :: "(string \<times> node) list" where
  "two_backups =
     [(''250101000000-2.sl2'', RegularFile ''one''),
      (''250102000000-x.sl2'', RegularFile ''two'')]"

text \<open>Three backups, two of them named \<^verbatim>\<open>a\<close>; the newest is enumerated first.\<close>

definition three_backups :: "(string \<times> node) list" where
  "three_backups =
     [(''250109000000-a.sl2'', RegularFile ''one''),
      (''250102000000-a.sl2'', RegularFile ''two''),
      (''250101000000-b.sl2'', RegularFile ''three'')]"

text \<open>A directory whose name ends in the save-file suffix and does not parse.\<close>

definition junk_directory :: "string \<times> node" where
  "junk_directory = (''junk.sl2'', Directory)"

text \<open>A directory whose name looks like a backup.\<close>

definition backup_like_directory :: "string \<times> node" where
  "backup_like_directory = (''250103000000.sl2'', Directory)"

text \<open>A regular file whose name ends in the save-file suffix and does not parse.\<close>

definition junk_file :: "string \<times> node" where
  "junk_file = (''junk.sl2'', RegularFile ''junk'')"

text \<open>Two times one second apart, on the two sides of the turn of the century.\<close>

definition last_second_of_1999 :: datetime where
  "last_second_of_1999 =
     \<lparr>year = 1999, month = 12, day = 31, hour = 23, minute = 59, second = 59, microsecond = 0\<rparr>"

definition first_second_of_2000 :: datetime where
  "first_second_of_2000 =
     \<lparr>year = 2000, month = 1, day = 1, hour = 0, minute = 0, second = 0, microsecond = 0\<rparr>"

text \<open>The example time one microsecond later, and one second later.\<close>

definition example_time_next_microsecond :: datetime where
  "example_time_next_microsecond = example_time\<lparr>microsecond := 8\<rparr>"

definition example_time_next_second :: datetime where
  "example_time_next_second = example_time\<lparr>second := 7, microsecond := 0\<rparr>"

text \<open>A time outside the years that a two-digit year reads back.\<close>

definition new_year_1950 :: datetime where
  "new_year_1950 =
     \<lparr>year = 1950, month = 1, day = 1, hour = 0, minute = 0, second = 0, microsecond = 0\<rparr>"

definition new_year_2050 :: datetime where
  "new_year_2050 =
     \<lparr>year = 2050, month = 1, day = 1, hour = 0, minute = 0, second = 0, microsecond = 0\<rparr>"

text \<open>A regular file whose name has the suffix and whose timestamp segment names month 0.\<close>

definition month_zero_file :: "string \<times> node" where
  "month_zero_file = (''000000000000.sl2'', RegularFile ''zero'')"

section \<open>Properties\<close>

subsection \<open>Backup construction\<close>

lemma strptime_error_kind: "strptime s fmt = Inl e \<Longrightarrow> kind e = ValueError"
  by (auto simp: strptime_def datetime_new_def Let_def split: list.splits if_splits prod.splits)

lemma backup_time_segment: "backup_time (backup_at p) = strptime (timestamp_segment p) TIME_FILE_FORMAT"
  by (simp add: backup_time_def timestamp_segment_def split: prod.splits)

lemma backup_time_error_kind: "backup_time b = Inl e \<Longrightarrow> kind e = ValueError"
  by (auto simp: backup_time_def split: prod.splits dest: strptime_error_kind)

lemma errno_class_kind [simp]:
  "is_Exception (errno_class n)" "errno_class n \<noteq> ValueError" "errno_class n \<noteq> TypeError"
  "errno_class n \<noteq> UnknownModeError" "errno_class n \<noteq> BackupNotFoundError"
  by (simp_all add: errno_class_def)

lemma os_error_kind [simp]: "kind (os_error n s) = errno_class n"
  by (simp add: os_error_def)

lemma os_stat_listed: "map_of (entries w) f = Some n \<Longrightarrow> os_stat w f = Inr n"
  by (simp add: os_stat_def entry_key_def)

lemma path_exists_True:
  "path_exists w p = Inr True \<longleftrightarrow> (\<exists>n. os_stat w p = Inr n)"
  by (auto simp: path_exists_def split: sum.splits)

lemma path_is_file_True:
  "path_is_file w p = Inr True \<longleftrightarrow> (\<exists>c. os_stat w p = Inr (RegularFile c))"
  by (auto simp: path_is_file_def split: sum.splits node.splits)

lemma path_is_file_exists: "path_is_file w p = Inr True \<Longrightarrow> path_exists w p = Inr True"
  by (auto simp: path_is_file_True path_exists_True)

lemma path_exists_is_file:
  "path_exists w p = Inr True \<Longrightarrow> path_is_file w p = Inr True \<or> path_is_file w p = Inr False"
  by (auto simp: path_exists_True path_is_file_def split: node.splits)

lemma path_exists_error:
  "path_exists w p = Inl e \<Longrightarrow> \<exists>n s. e = os_error n s"
  by (cases "os_stat w p"; cases "projl (os_stat w p)")
     (auto simp: path_exists_def split: if_splits)

lemma passes_guard_iff:
  "passes_guard w p \<longleftrightarrow> \<not> isl (path_exists w p) \<and> \<not> not_regular w p"
proof (cases "path_exists w p")
  case (Inl e)
  then have "path_is_file w p \<noteq> Inr True" by (auto dest: path_is_file_exists)
  with Inl show ?thesis by (simp add: passes_guard_def)
next
  case (Inr found)
  show ?thesis
  proof (cases found)
    case True
    with Inr path_exists_is_file[of w p] show ?thesis
      by (auto simp: passes_guard_def not_regular_def)
  next
    case False
    with Inr show ?thesis by (simp add: passes_guard_def not_regular_def)
  qed
qed

lemma Backup_not_regular:
  "not_regular w p \<Longrightarrow> Backup w p = Inl (Error IsADirectoryError [str_path p])"
  by (simp add: Backup_def check_def not_regular_def)

lemma Backup_exists_error: "path_exists w p = Inl e \<Longrightarrow> Backup w p = Inl e"
  by (simp add: Backup_def check_def)

lemma Backup_passes:
  "passes_guard w p \<Longrightarrow>
   Backup w p = (case backup_time (backup_at p) of Inl e \<Rightarrow> Inl e | Inr _ \<Rightarrow> Inr (backup_at p))"
  by (auto simp: passes_guard_def Backup_def check_def dest: path_is_file_exists
      split: sum.splits)

lemma Backup_time_error:
  "passes_guard w p \<Longrightarrow> backup_time (backup_at p) = Inl e \<Longrightarrow> Backup w p = Inl e"
  by (simp add: Backup_passes)

lemma Backup_time_ok:
  "passes_guard w p \<Longrightarrow> backup_time (backup_at p) = Inr t \<Longrightarrow> Backup w p = Inr (backup_at p)"
  by (simp add: Backup_passes)

lemma Backup_parses:
  "passes_guard w p \<Longrightarrow> parses p \<Longrightarrow> Backup w p = Inr (backup_at p)"
  by (auto simp: parses_def backup_time_segment[symmetric] split: sum.splits dest: Backup_time_ok)

lemma Backup_not_parses:
  "passes_guard w p \<Longrightarrow> \<not> parses p \<Longrightarrow> \<exists>e. Backup w p = Inl e \<and> kind e = ValueError"
  by (auto simp: parses_def backup_time_segment[symmetric] split: sum.splits
      dest: Backup_time_error backup_time_error_kind)

lemma Backup_Inr_path: "Backup w p = Inr b \<Longrightarrow> b = backup_at p"
  by (auto simp: Backup_def split: sum.splits)

text \<open>
  The exceptions of a construction: the \<^verbatim>\<open>OSError\<close> of a failed test, the
  \<^verbatim>\<open>IsADirectoryError\<close> of the guard, the \<^verbatim>\<open>ValueError\<close> of the timestamp.
\<close>

lemma Backup_error_cases:
  assumes "Backup w p = Inl e"
  shows "(\<exists>n s. e = os_error n s) \<or> e = Error IsADirectoryError [str_path p]
         \<or> (kind e = ValueError \<and> passes_guard w p)"
proof (cases "path_exists w p")
  case (Inl e')
  with assms have "e = e'" by (simp add: Backup_exists_error)
  with Inl show ?thesis by (auto dest: path_exists_error)
next
  case (Inr found)
  show ?thesis
  proof (cases "not_regular w p")
    case True
    with assms show ?thesis by (simp add: Backup_not_regular)
  next
    case False
    with Inr have pg: "passes_guard w p" by (simp add: passes_guard_iff)
    with assms have "kind e = ValueError"
      by (auto simp: Backup_passes split: sum.splits dest: backup_time_error_kind)
    with pg show ?thesis by simp
  qed
qed

lemma Backup_error_kind:
  "Backup w p = Inl e \<Longrightarrow> is_Exception (kind e) \<and> kind e \<noteq> UnknownModeError"
  by (auto dest: Backup_error_cases)

lemma glob_listed: "f \<in> set (glob w) \<Longrightarrow> \<exists>n. map_of (entries w) f = Some n"
  by (cases "map_of (entries w) f") (auto simp: glob_def map_of_eq_None_iff)

lemma glob_exists: "f \<in> set (glob w) \<Longrightarrow> path_exists w f = Inr True"
  by (auto simp: path_exists_True dest!: glob_listed os_stat_listed)

lemma glob_not_regular:
  "f \<in> set (glob w) \<Longrightarrow> not_regular w f \<longleftrightarrow> path_is_file w f = Inr False"
  by (simp add: not_regular_def glob_exists)


text \<open>
  Claim C7, as amended. Constructing a backup from a path
  \<^item> fails with \<^verbatim>\<open>IsADirectoryError\<close> when the path exists and is not a regular
    file (\<^verbatim>\<open>exists()\<close> returns \<^verbatim>\<open>True\<close> and \<^verbatim>\<open>is_file()\<close> returns
    \<^verbatim>\<open>False\<close>), whatever its name;
  \<^item> fails with the \<^verbatim>\<open>ValueError\<close> of \<^verbatim>\<open>strptime\<close> when the guard lets the
    path pass and its timestamp segment does not parse;
  \<^item> succeeds when \<^verbatim>\<open>exists()\<close> returns \<^verbatim>\<open>False\<close> and the timestamp
    segment parses;
  \<^item> fails with the \<^verbatim>\<open>OSError\<close> that \<^verbatim>\<open>exists()\<close> raises when the operating
    system answers the test with an error other than that nothing is there (a file
    name that is too long, for one), whatever the timestamp segment.
\<close>

theorem Backup_construction:
  "(not_regular w p \<longrightarrow> Backup w p = Inl (Error IsADirectoryError [str_path p]))
   \<and> (passes_guard w p \<and> strptime (timestamp_segment p) TIME_FILE_FORMAT = Inl e
        \<longrightarrow> Backup w p = Inl e \<and> kind e = ValueError)
   \<and> (path_exists w p = Inr False \<and> strptime (timestamp_segment p) TIME_FILE_FORMAT = Inr t
        \<longrightarrow> Backup w p = Inr (backup_at p))
   \<and> (path_exists w p = Inl e' \<longrightarrow> Backup w p = Inl e' \<and> (\<exists>n s. e' = os_error n s))"
proof (intro conjI impI)
  assume "not_regular w p"
  then show "Backup w p = Inl (Error IsADirectoryError [str_path p])"
    by (rule Backup_not_regular)
next
  assume a: "passes_guard w p \<and> strptime (timestamp_segment p) TIME_FILE_FORMAT = Inl e"
  then show "Backup w p = Inl e"
    by (simp add: Backup_time_error backup_time_segment)
  from a show "kind e = ValueError"
    by (auto dest: strptime_error_kind)
next
  assume a: "path_exists w p = Inr False \<and> strptime (timestamp_segment p) TIME_FILE_FORMAT = Inr t"
  then have "passes_guard w p" by (simp add: passes_guard_def)
  with a show "Backup w p = Inr (backup_at p)"
    by (simp add: Backup_time_ok[of w p t] backup_time_segment)
next
  assume a: "path_exists w p = Inl e'"
  then show "Backup w p = Inl e'" by (rule Backup_exists_error)
  from a show "\<exists>n s. e' = os_error n s" by (rule path_exists_error)
qed

subsection \<open>Enumeration\<close>

lemma backups_from_append:
  "\<forall>f \<in> set pre. Backup w f = Inr (backup_at f) \<Longrightarrow>
   backups_from w (pre @ rest) = (map backup_at pre @ fst (backups_from w rest), snd (backups_from w rest))"
  by (induction pre) (auto split: prod.splits)

lemma backups_from_error_kind:
  "snd (backups_from w files) = Some e \<Longrightarrow>
   is_Exception (kind e) \<and> kind e \<noteq> UnknownModeError \<and> kind e \<noteq> ValueError"
proof (induction files)
  case Nil
  then show ?case by simp
next
  case (Cons f files)
  then show ?case
    by (auto split: sum.splits if_splits prod.splits dest: Backup_error_kind)
qed

text \<open>
  Claim C9. When the enumeration reaches an entry with the save-file suffix that exists
  and is not a regular file (every entry before it was constructed), the generator has
  yielded the backups of the entries before it and then raises the
  \<^verbatim>\<open>IsADirectoryError\<close> of that entry: it neither halts silently there nor skips
  the entry, and a caller such as \<^verbatim>\<open>find\<close> receives the exception.
\<close>

theorem backups_not_regular_propagates:
  assumes "glob w = pre @ file # post"
    and "\<forall>f \<in> set pre. \<exists>b. Backup w f = Inr b"
    and "path_exists w file = Inr True" and "path_is_file w file = Inr False"
  shows "backups w = (map backup_at pre, Some (Error IsADirectoryError [str_path file]))
       \<and> find_backup w selector = Inl (Error IsADirectoryError [str_path file])"
proof -
  have pre: "\<forall>f \<in> set pre. Backup w f = Inr (backup_at f)"
    using assms(2) by (auto dest: Backup_Inr_path)
  have "Backup w file = Inl (Error IsADirectoryError [str_path file])"
    using assms(3,4) by (simp add: Backup_not_regular not_regular_def)
  then have "backups_from w (file # post) = ([], Some (Error IsADirectoryError [str_path file]))"
    by simp
  then have "backups w = (map backup_at pre, Some (Error IsADirectoryError [str_path file]))"
    using backups_from_append[OF pre, of "file # post"] assms(1) by (simp add: backups_def)
  then show ?thesis by (simp add: find_backup_def)
qed



lemma of_char_digit_char: "n < 10 \<Longrightarrow> (of_char (digit_char n) :: nat) = 48 + n"
  by (simp add: digit_char_def)

lemma digit_char_inj:
  assumes "a < 10" and "b < 10" and "digit_char a = digit_char b"
  shows "a = b"
proof -
  have "(of_char (digit_char a) :: nat) = of_char (digit_char b)"
    using assms(3) by simp
  then show ?thesis
    using assms(1,2) by (simp add: of_char_digit_char)
qed

lemma show_nat_nonempty [simp]: "show_nat n \<noteq> []" "[] \<noteq> show_nat n"
  by (subst show_nat.simps, simp)+

lemma show_nat_inj: "show_nat m = show_nat n \<Longrightarrow> m = n"
proof (induction m arbitrary: n rule: show_nat.induct)
  case (1 m)
  show ?case
  proof (cases "m < 10")
    case True
    then have m: "show_nat m = [digit_char m]" by (subst show_nat.simps) simp
    show ?thesis
    proof (cases "n < 10")
      case n: True
      then have "show_nat n = [digit_char n]" by (subst show_nat.simps) simp
      with m "1.prems" have "digit_char m = digit_char n" by simp
      with True n show ?thesis by (rule digit_char_inj)
    next
      case False
      then have "show_nat n = show_nat (n div 10) @ [digit_char (n mod 10)]"
        by (subst show_nat.simps) simp
      with m "1.prems" show ?thesis by simp
    qed
  next
    case False
    then have m: "show_nat m = show_nat (m div 10) @ [digit_char (m mod 10)]"
      by (subst show_nat.simps) simp
    show ?thesis
    proof (cases "n < 10")
      case True
      then have "show_nat n = [digit_char n]" by (subst show_nat.simps) simp
      with m "1.prems" show ?thesis by simp
    next
      case n: False
      then have "show_nat n = show_nat (n div 10) @ [digit_char (n mod 10)]"
        by (subst show_nat.simps) simp
      with m "1.prems" have eq: "show_nat (m div 10) = show_nat (n div 10)"
        and d: "digit_char (m mod 10) = digit_char (n mod 10)" by simp_all
      from "1.IH"[OF False eq] have "m div 10 = n div 10" .
      moreover have "m mod 10 = n mod 10"
        by (rule digit_char_inj[OF _ _ d]) simp_all
      ultimately have "10 * (m div 10) + m mod 10 = 10 * (n div 10) + n mod 10" by simp
      then show ?thesis by simp
    qed
  qed
qed

subsection \<open>The loop of find\<close>

lemma find_loop_last:
  "fst (find_loop sel k bs st) = (if bs = [] then fst st else Some (last bs))"
  by (induction sel k bs st rule: find_loop.induct) auto

lemma find_loop_ind_none:
  "\<forall>i < length bs. show_nat (k + i) \<noteq> sel \<Longrightarrow>
   fst (snd (find_loop sel k bs (b, im, sm))) = im"
proof (induction bs arbitrary: k b im sm)
  case Nil
  then show ?case by simp
next
  case (Cons x xs)
  from Cons.prems have "show_nat k \<noteq> sel" by force
  moreover from Cons.prems have "\<forall>i < length xs. show_nat (Suc k + i) \<noteq> sel" by force
  ultimately show ?case using Cons.IH[of "Suc k"] by simp
qed

lemma find_loop_ind_match:
  "i < length bs \<Longrightarrow> show_nat (k + i) = sel \<Longrightarrow>
   fst (snd (find_loop sel k bs (b, im, sm))) = Some (bs ! i)"
proof (induction bs arbitrary: k i b im sm)
  case Nil
  then show ?case by simp
next
  case (Cons x xs)
  show ?case
  proof (cases i)
    case 0
    with Cons.prems have k: "show_nat k = sel" by simp
    have "\<forall>j < length xs. show_nat (Suc k + j) \<noteq> sel"
      using k by (auto dest: show_nat_inj)
    then show ?thesis using 0 k find_loop_ind_none[of xs "Suc k" sel] by simp
  next
    case (Suc i')
    with Cons.prems have "i' < length xs" "show_nat (Suc k + i') = sel" by simp_all
    then show ?thesis using Suc Cons.IH[of i' "Suc k"] by simp
  qed
qed

lemma find_loop_str_none:
  "\<forall>x \<in> set bs. backup_name x \<noteq> sel \<Longrightarrow>
   snd (snd (find_loop sel k bs (b, im, sm))) = sm"
  by (induction bs arbitrary: k b im sm) auto

lemma find_loop_str_match:
  "j < length bs \<Longrightarrow> backup_name (bs ! j) = sel \<Longrightarrow>
   \<forall>l. j < l \<and> l < length bs \<longrightarrow> backup_name (bs ! l) \<noteq> sel \<Longrightarrow>
   snd (snd (find_loop sel k bs (b, im, sm))) = Some (bs ! j)"
proof (induction bs arbitrary: k j b im sm)
  case Nil
  then show ?case by simp
next
  case (Cons x xs)
  show ?case
  proof (cases j)
    case 0
    have "\<forall>y \<in> set xs. backup_name y \<noteq> sel"
    proof
      fix y assume "y \<in> set xs"
      then obtain l where l: "l < length xs" "xs ! l = y" by (auto simp: in_set_conv_nth)
      then have "0 < Suc l \<and> Suc l < length (x # xs)" by simp
      with Cons.prems(3) 0 have "backup_name ((x # xs) ! Suc l) \<noteq> sel" by blast
      with l show "backup_name y \<noteq> sel" by simp
    qed
    then show ?thesis using 0 Cons.prems find_loop_str_none[of xs sel] by simp
  next
    case (Suc j')
    with Cons.prems have "j' < length xs" "backup_name (xs ! j') = sel" by simp_all
    moreover have "\<forall>l. j' < l \<and> l < length xs \<longrightarrow> backup_name (xs ! l) \<noteq> sel"
    proof (intro allI impI)
      fix l assume "j' < l \<and> l < length xs"
      then have "j < Suc l \<and> Suc l < length (x # xs)" using Suc by simp
      with Cons.prems(3) have "backup_name ((x # xs) ! Suc l) \<noteq> sel" by blast
      then show "backup_name (xs ! l) \<noteq> sel" by simp
    qed
    ultimately show ?thesis using Suc Cons.IH[of j'] by simp
  qed
qed

lemma find_backup_completed:
  "backups w = (bs, None) \<Longrightarrow>
   find_backup w selector =
     (case find_loop selector 1 bs (None, None, None) of
        (backup, ind_match, str_match) \<Rightarrow>
          (case and_then (selector = []) backup of
             Some b \<Rightarrow> Inr b
           | None \<Rightarrow>
               (case and_then (selector \<noteq> []) ind_match of
                  Some b \<Rightarrow> Inr b
                | None \<Rightarrow>
                    (case and_then (selector \<noteq> []) str_match of
                       Some b \<Rightarrow> Inr b
                     | None \<Rightarrow> Inl (Error BackupNotFoundError [selector])))))"
  by (simp add: find_backup_def)

text \<open>
  Claim C4, as amended. When the enumeration ends without raising, \<^verbatim>\<open>find('')\<close>
  returns the last backup the enumeration produced, and fails with
  \<^verbatim>\<open>BackupNotFoundError\<close> when it produced none.
\<close>

theorem find_empty_selector:
  assumes "backups w = (bs, None)"
  shows "find_backup w [] = (if bs = [] then Inl (Error BackupNotFoundError [[]]) else Inr (last bs))"
proof -
  obtain b im sm where st: "find_loop [] 1 bs (None, None, None) = (b, im, sm)"
    by (cases "find_loop [] 1 bs (None, None, None)") auto
  have "b = (if bs = [] then None else Some (last bs))"
    using find_loop_last[of "[]" 1 bs "(None, None, None)"] st by simp
  then show ?thesis
    using assms st by (simp add: find_backup_completed and_then_def)
qed

text \<open>
  Claim C1, as amended. When the enumeration ends without raising, and the non-empty
  selector is the 1-based index of one enumerated backup and the name of some enumerated
  backup, \<^verbatim>\<open>find\<close> returns the backup at that index.
\<close>

theorem find_index_wins:
  assumes "backups w = (bs, None)" and "selector \<noteq> []"
    and "i < length bs" and "show_nat (Suc i) = selector"
    and "j < length bs" and "backup_name (bs ! j) = selector"
  shows "find_backup w selector = Inr (bs ! i)"
proof -
  obtain b im sm where st: "find_loop selector 1 bs (None, None, None) = (b, im, sm)"
    by (cases "find_loop selector 1 bs (None, None, None)") auto
  have "im = Some (bs ! i)"
    using find_loop_ind_match[of i bs 1 selector None None None] assms(3,4) st by simp
  then show ?thesis
    using assms(1,2) st by (simp add: find_backup_completed and_then_def)
qed

text \<open>
  Claim C10, as amended. When the enumeration ends without raising, the non-empty
  selector is no index of an enumerated backup, and two or more enumerated backups have
  the selector as their name, \<^verbatim>\<open>find\<close> returns the last of them in
  enumeration order.
\<close>

theorem find_last_name_match:
  assumes "backups w = (bs, None)" and "selector \<noteq> []"
    and "\<forall>i < length bs. show_nat (Suc i) \<noteq> selector"
    and "j < k" and "k < length bs"
    and "backup_name (bs ! j) = selector" and "backup_name (bs ! k) = selector"
    and "\<forall>l. k < l \<and> l < length bs \<longrightarrow> backup_name (bs ! l) \<noteq> selector"
  shows "find_backup w selector = Inr (bs ! k)"
proof -
  obtain b im sm where st: "find_loop selector 1 bs (None, None, None) = (b, im, sm)"
    by (cases "find_loop selector 1 bs (None, None, None)") auto
  have "im = None"
    using find_loop_ind_none[of bs 1 selector None None None] assms(3) st by simp
  moreover have "sm = Some (bs ! k)"
    using find_loop_str_match[of k bs selector 1 None None None] assms(5,7,8) st by simp
  ultimately show ?thesis
    using assms(1,2) st by (simp add: find_backup_completed and_then_def)
qed

subsection \<open>The example inputs, evaluated\<close>

lemmas path_eval =
  timestamp_segment_def path_stem_def path_name_def parts_def rfind_def str_partition_def
  Let_def SAVE_FILE_SUFFIX_def endswith_def str_path_def gen_backup_dir_path_def
  backup_name_def is_absolute_def

lemmas strptime_eval =
  strptime_def TIME_FILE_FORMAT_def in_class_def digit_val_def strptime_defaults_def
  datetime_new_def days_in_month_def is_leap_def format_text_def

lemmas world_eval =
  world_of_def glob_def two_backups_def
  three_backups_def junk_directory_def junk_file_def backup_like_directory_def
  example_time_def truncate_seconds_def

lemmas backup_eval = Backup_def check_def backup_time_def backups_def parses_def

lemma entries_world_of [simp]: "entries (world_of es) = es"
  by (simp add: world_of_def)

text \<open>What is listed is judged by its entry alone.\<close>

lemma not_regular_listed:
  "map_of (entries w) p \<noteq> None \<Longrightarrow> not_regular w p \<longleftrightarrow> map_of (entries w) p = Some Directory"
  by (cases "map_of (entries w) p")
     (auto simp: not_regular_def path_exists_def path_is_file_def os_stat_listed
      split: node.splits)

lemma passes_guard_listed:
  "map_of (entries w) p \<noteq> None \<Longrightarrow> passes_guard w p \<longleftrightarrow> map_of (entries w) p \<noteq> Some Directory"
  by (cases "map_of (entries w) p")
     (auto simp: passes_guard_def path_exists_def path_is_file_def os_stat_listed
      split: node.splits)

lemma path_exists_listed: "map_of (entries w) p \<noteq> None \<Longrightarrow> path_exists w p = Inr True"
  by (cases "map_of (entries w) p") (auto simp: path_exists_def os_stat_listed)

lemma path_is_file_listed:
  "map_of (entries w) p \<noteq> None \<Longrightarrow>
   path_is_file w p = Inr (map_of (entries w) p \<noteq> Some Directory)"
  by (cases "map_of (entries w) p")
     (auto simp: path_is_file_def os_stat_listed split: node.splits)

lemma show_nat_small:
  "show_nat 1 = ''1''" "show_nat 2 = ''2''" "show_nat 3 = ''3''" "show_nat 4 = ''4''"
  "show_nat (Suc 0) = ''1''" "show_nat (Suc (Suc 0)) = ''2''"
  "show_nat (Suc (Suc (Suc 0))) = ''3''"
  by code_simp+

lemma show_nat_errno:
  "show_nat 2 = ''2''" "show_nat 13 = ''13''" "show_nat 20 = ''20''" "show_nat 21 = ''21''"
  "show_nat 36 = ''36''"
  by code_simp+

lemma parses_examples:
  "parses ''250101000000-2.sl2''" "parses ''250102000000-x.sl2''"
  "parses ''250109000000-a.sl2''" "parses ''250102000000-a.sl2''"
  "parses ''250101000000-b.sl2''" "parses ''250103000000.sl2''"
  "\<not> parses ''junk.sl2''"
  by (simp_all add: path_eval strptime_eval parses_def)

lemma backup_name_examples:
  "backup_name (backup_at ''250101000000-2.sl2'') = ''2''"
  "backup_name (backup_at ''250102000000-x.sl2'') = ''x''"
  "backup_name (backup_at ''250109000000-a.sl2'') = ''a''"
  "backup_name (backup_at ''250102000000-a.sl2'') = ''a''"
  "backup_name (backup_at ''250101000000-b.sl2'') = ''b''"
  "backup_name (backup_at ''250103000000.sl2'') = ''''"
  by (simp_all add: path_eval)

lemma glob_examples:
  "glob (world_of two_backups) = [''250101000000-2.sl2'', ''250102000000-x.sl2'']"
  "glob (world_of three_backups)
     = [''250109000000-a.sl2'', ''250102000000-a.sl2'', ''250101000000-b.sl2'']"
  "glob (world_of (two_backups @ [backup_like_directory]))
     = [''250101000000-2.sl2'', ''250102000000-x.sl2'', ''250103000000.sl2'']"
  "glob (world_of (three_backups @ [backup_like_directory]))
     = [''250109000000-a.sl2'', ''250102000000-a.sl2'', ''250101000000-b.sl2'',
        ''250103000000.sl2'']"
  "glob (world_of [junk_directory]) = [''junk.sl2'']"
  "glob (world_of [backup_like_directory]) = [''250103000000.sl2'']"
  "glob (world_of []) = []"
  by (simp_all add: world_eval SAVE_FILE_SUFFIX_def endswith_def)

lemmas entries_eval =
  two_backups_def three_backups_def junk_directory_def junk_file_def backup_like_directory_def

lemma str_path_examples:
  "str_path ''250103000000.sl2'' = ''files/250103000000.sl2''"
  "str_path ''junk.sl2'' = ''files/junk.sl2''"
  by (simp_all add: path_eval)

lemma backups_two_backups:
  "backups (world_of two_backups)
     = ([backup_at ''250101000000-2.sl2'', backup_at ''250102000000-x.sl2''], None)"
  unfolding backups_def glob_examples
  by (simp add: Backup_parses parses_examples passes_guard_listed not_regular_listed entries_eval)

lemma backups_three_backups:
  "backups (world_of three_backups)
     = ([backup_at ''250109000000-a.sl2'', backup_at ''250102000000-a.sl2'',
         backup_at ''250101000000-b.sl2''], None)"
  unfolding backups_def glob_examples
  by (simp add: Backup_parses parses_examples passes_guard_listed not_regular_listed entries_eval)

lemma backups_two_backups_directory:
  "backups (world_of (two_backups @ [backup_like_directory]))
     = ([backup_at ''250101000000-2.sl2'', backup_at ''250102000000-x.sl2''],
        Some (Error IsADirectoryError [''files/250103000000.sl2'']))"
  unfolding backups_def glob_examples
  by (simp add: Backup_parses Backup_not_regular parses_examples passes_guard_listed
      not_regular_listed entries_eval str_path_examples)

lemma backups_three_backups_directory:
  "backups (world_of (three_backups @ [backup_like_directory]))
     = ([backup_at ''250109000000-a.sl2'', backup_at ''250102000000-a.sl2'',
         backup_at ''250101000000-b.sl2''],
        Some (Error IsADirectoryError [''files/250103000000.sl2'']))"
  unfolding backups_def glob_examples
  by (simp add: Backup_parses Backup_not_regular parses_examples passes_guard_listed
      not_regular_listed entries_eval str_path_examples)

lemma backups_directory_only:
  "backups (world_of [backup_like_directory])
     = ([], Some (Error IsADirectoryError [''files/250103000000.sl2'']))"
  "backups (world_of [junk_directory])
     = ([], Some (Error IsADirectoryError [''files/junk.sl2'']))"
  unfolding backups_def glob_examples
  by (simp_all add: Backup_not_regular not_regular_listed entries_eval str_path_examples)

subsection \<open>Witnesses and counterexamples for the enumeration\<close>

theorem backups_not_regular_propagates_witness:
  "glob (world_of (two_backups @ [backup_like_directory]))
     = [''250101000000-2.sl2'', ''250102000000-x.sl2''] @ ''250103000000.sl2'' # []
   \<and> Backup (world_of (two_backups @ [backup_like_directory])) ''250101000000-2.sl2''
       = Inr (backup_at ''250101000000-2.sl2'')
   \<and> Backup (world_of (two_backups @ [backup_like_directory])) ''250102000000-x.sl2''
       = Inr (backup_at ''250102000000-x.sl2'')
   \<and> path_exists (world_of (two_backups @ [backup_like_directory])) ''250103000000.sl2''
       = Inr True
   \<and> path_is_file (world_of (two_backups @ [backup_like_directory])) ''250103000000.sl2''
       = Inr False
   \<and> backups (world_of (two_backups @ [backup_like_directory]))
       = ([backup_at ''250101000000-2.sl2'', backup_at ''250102000000-x.sl2''],
          Some (Error IsADirectoryError [''files/250103000000.sl2'']))
   \<and> find_backup (world_of (two_backups @ [backup_like_directory])) ''1''
       = Inl (Error IsADirectoryError [''files/250103000000.sl2''])"
proof -
  let ?w = "world_of (two_backups @ [backup_like_directory])"
  have g: "glob ?w = [''250101000000-2.sl2'', ''250102000000-x.sl2''] @ ''250103000000.sl2'' # []"
    by (simp add: glob_examples)
  have b1: "Backup ?w ''250101000000-2.sl2'' = Inr (backup_at ''250101000000-2.sl2'')"
    by (simp add: Backup_parses parses_examples passes_guard_listed not_regular_listed entries_eval)
  have b2: "Backup ?w ''250102000000-x.sl2'' = Inr (backup_at ''250102000000-x.sl2'')"
    by (simp add: Backup_parses parses_examples passes_guard_listed not_regular_listed entries_eval)
  have pre: "\<forall>f \<in> set [''250101000000-2.sl2'', ''250102000000-x.sl2'']. \<exists>b. Backup ?w f = Inr b"
    using b1 b2 by simp
  have e: "path_exists ?w ''250103000000.sl2'' = Inr True"
    by (simp add: path_exists_listed entries_eval)
  have nf: "path_is_file ?w ''250103000000.sl2'' = Inr False"
    by (simp add: path_is_file_listed entries_eval)
  note r = backups_not_regular_propagates[OF g pre e nf, of "''1''", unfolded str_path_examples]
  from g b1 b2 e nf r show ?thesis
    by (simp del: append.simps)
qed



subsection \<open>Witnesses and counterexamples for find\<close>

lemma backup_time_examples:
  "backup_time (backup_at ''250109000000-a.sl2'')
     = Inr \<lparr>year = 2025, month = 1, day = 9, hour = 0, minute = 0, second = 0, microsecond = 0\<rparr>"
  "backup_time (backup_at ''250101000000-b.sl2'')
     = Inr \<lparr>year = 2025, month = 1, day = 1, hour = 0, minute = 0, second = 0, microsecond = 0\<rparr>"
  by (simp_all add: backup_time_segment path_eval strptime_eval)

lemma backups_empty_directory: "backups (world_of []) = ([], None)"
  by (simp add: backups_def glob_examples)

lemma find_backup_raised: "backups w = (bs, Some e) \<Longrightarrow> find_backup w selector = Inl e"
  by (simp add: find_backup_def)

theorem find_empty_selector_witness:
  "backups (world_of three_backups)
     = ([backup_at ''250109000000-a.sl2'', backup_at ''250102000000-a.sl2'',
         backup_at ''250101000000-b.sl2''], None)
   \<and> find_backup (world_of three_backups) [] = Inr (backup_at ''250101000000-b.sl2'')
   \<and> backup_time (backup_at ''250101000000-b.sl2'')
       = Inr \<lparr>year = 2025, month = 1, day = 1, hour = 0, minute = 0, second = 0, microsecond = 0\<rparr>
   \<and> backup_time (backup_at ''250109000000-a.sl2'')
       = Inr \<lparr>year = 2025, month = 1, day = 9, hour = 0, minute = 0, second = 0, microsecond = 0\<rparr>
   \<and> earlier
        \<lparr>year = 2025, month = 1, day = 1, hour = 0, minute = 0, second = 0, microsecond = 0\<rparr>
        \<lparr>year = 2025, month = 1, day = 9, hour = 0, minute = 0, second = 0, microsecond = 0\<rparr>
   \<and> backups (world_of []) = ([], None)
   \<and> find_backup (world_of []) [] = Inl (Error BackupNotFoundError [[]])"
proof -
  have e: "earlier
        \<lparr>year = 2025, month = 1, day = 1, hour = 0, minute = 0, second = 0, microsecond = 0\<rparr>
        \<lparr>year = 2025, month = 1, day = 9, hour = 0, minute = 0, second = 0, microsecond = 0\<rparr>"
    by (simp add: earlier_def datetime_key_def)
  have r1: "find_backup (world_of three_backups) [] = Inr (backup_at ''250101000000-b.sl2'')"
    using find_empty_selector[OF backups_three_backups] by simp
  have r2: "find_backup (world_of []) [] = Inl (Error BackupNotFoundError [[]])"
    using find_empty_selector[OF backups_empty_directory] by simp
  from backups_three_backups r1 backup_time_examples(2) backup_time_examples(1) e
    backups_empty_directory r2
  show ?thesis by (intro conjI)
qed

theorem find_empty_selector_counterexample:
  "fst (backups (world_of [backup_like_directory])) = []
   \<and> find_backup (world_of [backup_like_directory]) []
       = Inl (Error IsADirectoryError [''files/250103000000.sl2''])
   \<and> fst (backups (world_of (two_backups @ [backup_like_directory])))
       = [backup_at ''250101000000-2.sl2'', backup_at ''250102000000-x.sl2'']
   \<and> find_backup (world_of (two_backups @ [backup_like_directory])) []
       = Inl (Error IsADirectoryError [''files/250103000000.sl2''])"
  by (simp add: backups_directory_only backups_two_backups_directory
      find_backup_raised[OF backups_directory_only(1)]
      find_backup_raised[OF backups_two_backups_directory])

theorem find_index_wins_witness:
  "backups (world_of two_backups)
     = ([backup_at ''250101000000-2.sl2'', backup_at ''250102000000-x.sl2''], None)
   \<and> ''2'' \<noteq> []
   \<and> show_nat (Suc 1) = ''2''
   \<and> backup_name ([backup_at ''250101000000-2.sl2'', backup_at ''250102000000-x.sl2''] ! 0) = ''2''
   \<and> find_backup (world_of two_backups) ''2'' = Inr (backup_at ''250102000000-x.sl2'')"
proof -
  let ?bs = "[backup_at ''250101000000-2.sl2'', backup_at ''250102000000-x.sl2'']"
  have s: "show_nat (Suc 1) = ''2''"
    by (simp add: show_nat_small)
  have n: "backup_name (?bs ! 0) = ''2''"
    by (simp add: backup_name_examples)
  have "find_backup (world_of two_backups) ''2'' = Inr (?bs ! 1)"
    by (rule find_index_wins[OF backups_two_backups _ _ s _ n]) simp_all
  with backups_two_backups s n show ?thesis by simp
qed

theorem find_index_wins_counterexample:
  "fst (backups (world_of (two_backups @ [backup_like_directory])))
     = [backup_at ''250101000000-2.sl2'', backup_at ''250102000000-x.sl2'']
   \<and> show_nat 2 = ''2''
   \<and> backup_name (backup_at ''250101000000-2.sl2'') = ''2''
   \<and> find_backup (world_of (two_backups @ [backup_like_directory])) ''2''
       = Inl (Error IsADirectoryError [''files/250103000000.sl2''])"
  by (simp add: backups_two_backups_directory show_nat_small backup_name_examples
      find_backup_raised[OF backups_two_backups_directory])

theorem find_last_name_match_witness:
  "backups (world_of three_backups)
     = ([backup_at ''250109000000-a.sl2'', backup_at ''250102000000-a.sl2'',
         backup_at ''250101000000-b.sl2''], None)
   \<and> show_nat 1 \<noteq> ''a'' \<and> show_nat 2 \<noteq> ''a'' \<and> show_nat 3 \<noteq> ''a''
   \<and> backup_name (backup_at ''250109000000-a.sl2'') = ''a''
   \<and> backup_name (backup_at ''250102000000-a.sl2'') = ''a''
   \<and> backup_name (backup_at ''250101000000-b.sl2'') \<noteq> ''a''
   \<and> find_backup (world_of three_backups) ''a'' = Inr (backup_at ''250102000000-a.sl2'')"
proof -
  let ?bs = "[backup_at ''250109000000-a.sl2'', backup_at ''250102000000-a.sl2'',
         backup_at ''250101000000-b.sl2'']"
  have no_index: "\<forall>i < length ?bs. show_nat (Suc i) \<noteq> ''a''"
    by (simp add: All_less_Suc show_nat_small)
  have later: "\<forall>l. 1 < l \<and> l < length ?bs \<longrightarrow> backup_name (?bs ! l) \<noteq> ''a''"
    by (auto simp: less_Suc_eq backup_name_examples)
  have "find_backup (world_of three_backups) ''a'' = Inr (?bs ! 1)"
    by (rule find_last_name_match[OF backups_three_backups _ no_index _ _ _ _ later, of 0])
       (simp_all add: backup_name_examples)
  with backups_three_backups show ?thesis
    by (simp add: show_nat_small backup_name_examples)
qed

theorem find_last_name_match_counterexample:
  "fst (backups (world_of (three_backups @ [backup_like_directory])))
     = [backup_at ''250109000000-a.sl2'', backup_at ''250102000000-a.sl2'',
        backup_at ''250101000000-b.sl2'']
   \<and> show_nat 1 \<noteq> ''a'' \<and> show_nat 2 \<noteq> ''a'' \<and> show_nat 3 \<noteq> ''a''
   \<and> backup_name (backup_at ''250109000000-a.sl2'') = ''a''
   \<and> backup_name (backup_at ''250102000000-a.sl2'') = ''a''
   \<and> find_backup (world_of (three_backups @ [backup_like_directory])) ''a''
       = Inl (Error IsADirectoryError [''files/250103000000.sl2''])"
  by (simp add: backups_three_backups_directory show_nat_small backup_name_examples
      find_backup_raised[OF backups_three_backups_directory])

subsection \<open>The exceptions a command can raise\<close>

lemma handler_error_simps [simp]:
  "handler_error (os_error n s)" "handler_error (raise_failure f)"
  "handler_error ENOENT" "handler_error EISDIR"
  "handler_error (Error ValueError xs)" "handler_error (Error TypeError xs)"
  "handler_error (Error IsADirectoryError xs)" "handler_error (Error BackupNotFoundError xs)"
  by (cases f; simp add: handler_error_def ENOENT_def EISDIR_def)+

lemma handler_error_ValueError: "kind e = ValueError \<Longrightarrow> handler_error e"
  by (simp add: handler_error_def)

lemma backups_error_kind: "backups w = (bs, Some e) \<Longrightarrow> handler_error e"
  using backups_from_error_kind[of w "glob w" e] by (simp add: backups_def handler_error_def)

lemma find_backup_error_kind: "find_backup w selector = Inl e \<Longrightarrow> handler_error e"
  by (auto simp: find_backup_def split: prod.splits option.splits dest: backups_error_kind)

lemma create_error_kind: "create w name_arg time_arg = Inl e \<Longrightarrow> handler_error e"
  by (auto simp: create_def Let_def handler_error_def dest: Backup_error_kind)

lemma read_file_error_kind: "read_file w loc = Inl e \<Longrightarrow> handler_error e"
  by (auto simp: read_file_def split: option.splits location.splits sum.splits node.splits)

lemma write_file_error_kind: "write_file w loc c = Inl e \<Longrightarrow> handler_error e"
  by (auto simp: write_file_def
      split: option.splits location.splits sum.splits node.splits failure.splits)

lemma copy_file_error_kind: "copy_file w src dst = Inl e \<Longrightarrow> handler_error e"
  by (auto simp: copy_file_def split: sum.splits if_splits
      dest: read_file_error_kind write_file_error_kind)

lemma delete_file_error_kind: "delete_file w p = Inl e \<Longrightarrow> handler_error e"
  by (auto simp: delete_file_def Let_def
      split: option.splits sum.splits node.splits failure.splits)

lemma list_rows_error_kind: "list_rows i bs = Inl e \<Longrightarrow> handler_error e"
  by (induction i bs rule: list_rows.induct)
     (auto split: sum.splits dest: backup_time_error_kind handler_error_ValueError)

text \<open>The exceptions that the registered functions raise.\<close>

lemma cmd_list_error_kind: "cmd_list w = (Inl e, w') \<Longrightarrow> handler_error e"
  by (auto simp: cmd_list_def split: prod.splits option.splits if_splits sum.splits
      dest: backups_error_kind list_rows_error_kind)

lemma cmd_save_error_kind: "cmd_save w selector = (Inl e, w') \<Longrightarrow> handler_error e"
  by (auto simp: cmd_save_def save_def split: sum.splits
      dest: create_error_kind copy_file_error_kind)

lemma cmd_load_error_kind: "cmd_load w selector = (Inl e, w') \<Longrightarrow> handler_error e"
  by (auto simp: cmd_load_def load_def split: sum.splits
      dest: find_backup_error_kind copy_file_error_kind)

lemma cmd_delete_error_kind: "cmd_delete w selector = (Inl e, w') \<Longrightarrow> handler_error e"
  by (auto simp: cmd_delete_def delete_def split: sum.splits
      dest: find_backup_error_kind delete_file_error_kind)

lemma cmd_quit_no_error: "cmd_quit w \<noteq> (Inl e, w')"
  by (simp add: cmd_quit_def)

lemma registered_error_kind:
  assumes "c \<in> set commands" and "func c w args = (Inl e, w')"
  shows "handler_error e"
proof -
  from assms(1) consider
      "func c = call_self ''CommandHandler.list'' cmd_list"
    | "func c = call_self_selector ''CommandHandler.save'' cmd_save"
    | "func c = call_self_selector ''CommandHandler.load'' cmd_load"
    | "func c = call_self_selector ''CommandHandler.delete'' cmd_delete"
    | "func c = call_self ''CommandHandler.quit'' cmd_quit"
    by (auto simp: commands_def)
  then show ?thesis
  proof cases
    case 1
    with assms(2) show ?thesis
      by (auto simp: call_self_def split: if_splits dest: cmd_list_error_kind)
  next
    case 2
    with assms(2) show ?thesis
      by (auto simp: call_self_selector_def split: list.splits dest: cmd_save_error_kind)
  next
    case 3
    with assms(2) show ?thesis
      by (auto simp: call_self_selector_def split: list.splits dest: cmd_load_error_kind)
  next
    case 4
    with assms(2) show ?thesis
      by (auto simp: call_self_selector_def split: list.splits dest: cmd_delete_error_kind)
  next
    case 5
    with assms(2) show ?thesis
      by (auto simp: call_self_def cmd_quit_no_error split: if_splits)
  qed
qed

subsection \<open>Dispatch\<close>

lemma execute_scan_find:
  "execute_scan cs w cmd args =
     (case List.find (\<lambda>c. cmd \<in> set (aliases c)) cs of
        None \<Rightarrow> (Inl (Error UnknownModeError [cmd]), w)
      | Some c \<Rightarrow> func c w args)"
  by (induction cs) auto

lemma execute_error_kind:
  assumes "execute w cmd args = (Inl e, w')"
  shows "is_Exception (kind e)"
proof (cases "List.find (\<lambda>c. cmd \<in> set (aliases c)) commands")
  case None
  with assms show ?thesis by (auto simp: execute_def execute_scan_find)
next
  case (Some c)
  then have "c \<in> set commands" by (auto simp: find_Some_iff)
  moreover from Some assms have "func c w args = (Inl e, w')"
    by (simp add: execute_def execute_scan_find)
  ultimately show ?thesis using registered_error_kind by (auto simp: handler_error_def)
qed

text \<open>
  Claim C6. \<^verbatim>\<open>execute\<close> raises \<^verbatim>\<open>UnknownModeError(cmd)\<close> when no registered
  command has \<open>cmd\<close> among its aliases, and raises an \<^verbatim>\<open>UnknownModeError\<close> only
  then; otherwise it calls the function of the first command of the registry, in
  declaration order, whose aliases contain \<open>cmd\<close>, and its outcome (the string returned
  or the exception raised) is the outcome of that call.
\<close>

theorem execute_dispatch:
  "((\<forall>c \<in> set commands. cmd \<notin> set (aliases c))
      \<longrightarrow> execute w cmd args = (Inl (Error UnknownModeError [cmd]), w))
   \<and> (\<forall>e w'. execute w cmd args = (Inl e, w') \<and> kind e = UnknownModeError
         \<longrightarrow> (\<forall>c \<in> set commands. cmd \<notin> set (aliases c)))
   \<and> (\<forall>c. List.find (\<lambda>c. cmd \<in> set (aliases c)) commands = Some c
         \<longrightarrow> execute w cmd args = func c w args)"
proof (intro conjI allI impI)
  assume "\<forall>c \<in> set commands. cmd \<notin> set (aliases c)"
  then have "List.find (\<lambda>c. cmd \<in> set (aliases c)) commands = None"
    by (simp add: find_None_iff)
  then show "execute w cmd args = (Inl (Error UnknownModeError [cmd]), w)"
    by (simp add: execute_def execute_scan_find)
next
  fix e w'
  assume a: "execute w cmd args = (Inl e, w') \<and> kind e = UnknownModeError"
  show "\<forall>c \<in> set commands. cmd \<notin> set (aliases c)"
  proof (cases "List.find (\<lambda>c. cmd \<in> set (aliases c)) commands")
    case None
    then show ?thesis by (simp add: find_None_iff)
  next
    case (Some c)
    then have "c \<in> set commands" by (auto simp: find_Some_iff)
    moreover from Some a have "func c w args = (Inl e, w')"
      by (simp add: execute_def execute_scan_find)
    ultimately have "handler_error e"
      by (rule registered_error_kind)
    with a show ?thesis by (simp add: handler_error_def)
  qed
next
  fix c
  assume "List.find (\<lambda>c. cmd \<in> set (aliases c)) commands = Some c"
  then show "execute w cmd args = func c w args"
    by (simp add: execute_def execute_scan_find)
qed

text \<open>
  Claim C2. For every token list, \<^verbatim>\<open>execute_safe\<close> returns a string and lets no
  exception through; when \<^verbatim>\<open>execute\<close> raises, the string is the name of the
  exception class followed by the arguments of the exception, joined by \<^verbatim>\<open>': '\<close>;
  when \<^verbatim>\<open>execute\<close> returns, the string is its result.
\<close>

theorem execute_safe_never_raises:
  "(\<exists>res w'. execute_safe w argv = (Inr res, w'))
   \<and> (\<forall>err w'. execute_unpacked w argv = (Inl err, w')
         \<longrightarrow> execute_safe w argv = (Inr (join '': '' (type_name (kind err) # exc_args err)), w'))
   \<and> (\<forall>res w'. execute_unpacked w argv = (Inr res, w')
         \<longrightarrow> execute_safe w argv = (Inr res, w'))"
proof -
  have exc: "is_Exception (kind err)" if "execute_unpacked w argv = (Inl err, w')" for err w'
  proof -
    from that obtain cmd args where "execute w cmd args = (Inl err, w')"
      by (auto simp: execute_unpacked_def split: list.splits)
    from execute_error_kind[OF this] show ?thesis .
  qed
  show ?thesis
  proof (cases "execute_unpacked w argv")
    case (Pair r w')
    show ?thesis
    proof (cases r)
      case (Inl err)
      with Pair exc[of err w'] show ?thesis by (simp add: execute_safe_def)
    next
      case (Inr res)
      with Pair show ?thesis by (simp add: execute_safe_def)
    qed
  qed
qed

subsection \<open>Witnesses for dispatch\<close>

lemma find_command_examples:
  "List.find (\<lambda>c. [] \<in> set (aliases c)) commands = None"
  "List.find (\<lambda>c. ''frobnicate'' \<in> set (aliases c)) commands = None"
  "List.find (\<lambda>c. ''ls'' \<in> set (aliases c)) commands
     = Some \<lparr>aliases = [''list'', ''ls''], func = call_self ''CommandHandler.list'' cmd_list\<rparr>"
  "List.find (\<lambda>c. ''list'' \<in> set (aliases c)) commands
     = Some \<lparr>aliases = [''list'', ''ls''], func = call_self ''CommandHandler.list'' cmd_list\<rparr>"
  "List.find (\<lambda>c. ''save'' \<in> set (aliases c)) commands
     = Some \<lparr>aliases = [''save''], func = call_self_selector ''CommandHandler.save'' cmd_save\<rparr>"
  "List.find (\<lambda>c. ''del'' \<in> set (aliases c)) commands
     = Some \<lparr>aliases = [''delete'', ''del''],
             func = call_self_selector ''CommandHandler.delete'' cmd_delete\<rparr>"
  by (simp_all add: commands_def)

lemma cmd_list_empty_directory: "cmd_list (world_of []) = (Inr ''No backups found'', world_of [])"
  by (simp add: cmd_list_def backups_empty_directory)

lemma find_backup_empty_directory:
  "find_backup (world_of []) ''1'' = Inl (Error BackupNotFoundError [''1''])"
  by (simp add: find_backup_def backups_empty_directory and_then_def)

lemma cmd_delete_empty_directory:
  "cmd_delete (world_of []) ''1'' = (Inl (Error BackupNotFoundError [''1'']), world_of [])"
  by (simp add: cmd_delete_def find_backup_empty_directory)

theorem execute_dispatch_witness:
  "execute (world_of []) ''frobnicate'' [''x'']
     = (Inl (Error UnknownModeError [''frobnicate'']), world_of [])
   \<and> kind (Error UnknownModeError [''frobnicate'']) = UnknownModeError
   \<and> List.find (\<lambda>c. ''frobnicate'' \<in> set (aliases c)) commands = None
   \<and> List.find (\<lambda>c. ''ls'' \<in> set (aliases c)) commands
       = Some \<lparr>aliases = [''list'', ''ls''], func = call_self ''CommandHandler.list'' cmd_list\<rparr>
   \<and> execute (world_of []) ''ls'' [] = (Inr ''No backups found'', world_of [])
   \<and> List.find (\<lambda>c. ''del'' \<in> set (aliases c)) commands
       = Some \<lparr>aliases = [''delete'', ''del''],
               func = call_self_selector ''CommandHandler.delete'' cmd_delete\<rparr>
   \<and> execute (world_of []) ''del'' [''1'']
       = (Inl (Error BackupNotFoundError [''1'']), world_of [])"
proof -
  let ?w = "world_of []"
  have none: "\<forall>c \<in> set commands. ''frobnicate'' \<notin> set (aliases c)"
    by (simp add: commands_def)
  have r1: "execute ?w ''frobnicate'' [''x''] = (Inl (Error UnknownModeError [''frobnicate'']), ?w)"
    using execute_dispatch[of "''frobnicate''" ?w "[''x'']"] none by blast
  have "\<forall>c \<in> set commands. ''frobnicate'' \<notin> set (aliases c)"
    using execute_dispatch[of "''frobnicate''" ?w "[''x'']"] r1 by auto
  then have r2: "List.find (\<lambda>c. ''frobnicate'' \<in> set (aliases c)) commands = None"
    by (simp add: find_None_iff)
  have "execute ?w ''ls'' []
      = func \<lparr>aliases = [''list'', ''ls''], func = call_self ''CommandHandler.list'' cmd_list\<rparr> ?w []"
    using execute_dispatch[of "''ls''" ?w "[]"] find_command_examples(3) by blast
  then have r3: "execute ?w ''ls'' [] = (Inr ''No backups found'', ?w)"
    by (simp add: call_self_def cmd_list_empty_directory)
  have "execute ?w ''del'' [''1'']
      = func \<lparr>aliases = [''delete'', ''del''],
               func = call_self_selector ''CommandHandler.delete'' cmd_delete\<rparr> ?w [''1'']"
    using execute_dispatch[of "''del''" ?w "[''1'']"] find_command_examples(6) by blast
  then have r4: "execute ?w ''del'' [''1''] = (Inl (Error BackupNotFoundError [''1'']), ?w)"
    by (simp add: call_self_selector_def cmd_delete_empty_directory)
  have k: "kind (Error UnknownModeError [''frobnicate'']) = UnknownModeError" by simp
  from r1 k r2 find_command_examples(3) r3 find_command_examples(6) r4 show ?thesis
    by (intro conjI)
qed

lemma execute_examples:
  "execute (world_of []) [] [] = (Inl (Error UnknownModeError [[]]), world_of [])"
  "execute (world_of []) ''frobnicate'' [''x'']
     = (Inl (Error UnknownModeError [''frobnicate'']), world_of [])"
  "execute (world_of []) ''list'' [''x'']
     = (Inl (Error TypeError
              [''CommandHandler.list() takes 1 positional argument but 2 were given'']),
        world_of [])"
  "execute (world_of []) ''save'' [''a'', ''b'']
     = (Inl (Error TypeError
              [''CommandHandler.save() takes from 1 to 2 positional arguments but 3 were given'']),
        world_of [])"
  "execute (world_of []) ''ls'' [] = (Inr ''No backups found'', world_of [])"
  by (simp_all add: execute_def execute_scan_find find_command_examples call_self_def
      call_self_selector_def show_nat_small cmd_list_empty_directory)

theorem execute_safe_never_raises_witness:
  "execute_safe (world_of []) [] = (Inr ''UnknownModeError: '', world_of [])
   \<and> execute_safe (world_of []) [''frobnicate'', ''x'']
       = (Inr ''UnknownModeError: frobnicate'', world_of [])
   \<and> execute_safe (world_of []) [''list'', ''x'']
       = (Inr ''TypeError: CommandHandler.list() takes 1 positional argument but 2 were given'',
          world_of [])
   \<and> execute_safe (world_of []) [''save'', ''a'', ''b'']
       = (Inr ''TypeError: CommandHandler.save() takes from 1 to 2 positional arguments but 3 were given'',
          world_of [])
   \<and> execute_safe (world_of []) [''ls''] = (Inr ''No backups found'', world_of [])"
proof -
  let ?w = "world_of []"
  have u1: "execute_unpacked ?w [] = (Inl (Error UnknownModeError [[]]), ?w)"
    by (simp add: execute_unpacked_def execute_examples)
  have u2: "execute_unpacked ?w [''frobnicate'', ''x'']
      = (Inl (Error UnknownModeError [''frobnicate'']), ?w)"
    by (simp add: execute_unpacked_def execute_examples)
  have u3: "execute_unpacked ?w [''list'', ''x'']
      = (Inl (Error TypeError
               [''CommandHandler.list() takes 1 positional argument but 2 were given'']), ?w)"
    by (simp add: execute_unpacked_def execute_examples)
  have u4: "execute_unpacked ?w [''save'', ''a'', ''b'']
      = (Inl (Error TypeError
               [''CommandHandler.save() takes from 1 to 2 positional arguments but 3 were given'']),
         ?w)"
    by (simp add: execute_unpacked_def execute_examples)
  have u5: "execute_unpacked ?w [''ls''] = (Inr ''No backups found'', ?w)"
    by (simp add: execute_unpacked_def execute_examples)
  have r1: "execute_safe ?w [] = (Inr ''UnknownModeError: '', ?w)"
    using execute_safe_never_raises[of ?w "[]"] u1 by simp
  have r2: "execute_safe ?w [''frobnicate'', ''x''] = (Inr ''UnknownModeError: frobnicate'', ?w)"
    using execute_safe_never_raises[of ?w "[''frobnicate'', ''x'']"] u2 by simp
  have r3: "execute_safe ?w [''list'', ''x'']
       = (Inr ''TypeError: CommandHandler.list() takes 1 positional argument but 2 were given'', ?w)"
    using execute_safe_never_raises[of ?w "[''list'', ''x'']"] u3 by simp
  have r4: "execute_safe ?w [''save'', ''a'', ''b'']
       = (Inr ''TypeError: CommandHandler.save() takes from 1 to 2 positional arguments but 3 were given'', ?w)"
    using execute_safe_never_raises[of ?w "[''save'', ''a'', ''b'']"] u4 by simp
  have r5: "execute_safe ?w [''ls''] = (Inr ''No backups found'', ?w)"
    using execute_safe_never_raises[of ?w "[''ls'']"] u5 by simp
  from r1 r2 r3 r4 r5 show ?thesis by (intro conjI)
qed

subsection \<open>Two-digit fields\<close>

lemma digit_char_0: "digit_char 0 = CHR ''0''"
  by code_simp

lemma zfill_2:
  assumes "n < 100"
  shows "zfill 2 (show_nat n) = [digit_char (n div 10), digit_char (n mod 10)]"
proof (cases "n < 10")
  case True
  then have "show_nat n = [digit_char n]" by (subst show_nat.simps) simp
  with True show ?thesis by (simp add: zfill_def digit_char_0)
next
  case False
  with assms have "n div 10 < 10" by simp
  then have "show_nat (n div 10) = [digit_char (n div 10)]" by (subst show_nat.simps) simp
  moreover from False have "show_nat n = show_nat (n div 10) @ [digit_char (n mod 10)]"
    by (subst show_nat.simps) simp
  ultimately show ?thesis by (simp add: zfill_def)
qed

lemma valid_datetime_bounds:
  assumes "valid_datetime t"
  shows "year t mod 100 < 100" "1 \<le> month t" "month t \<le> 12" "1 \<le> day t" "day t \<le> 31"
    "hour t < 24" "minute t < 60" "second t < 60"
  using assms by (auto simp: valid_datetime_def days_in_month_def split: if_splits)

lemma strftime_file:
  assumes "valid_datetime t"
  shows "strftime t TIME_FILE_FORMAT =
     [digit_char (year t mod 100 div 10), digit_char (year t mod 100 mod 10),
      digit_char (month t div 10), digit_char (month t mod 10),
      digit_char (day t div 10), digit_char (day t mod 10),
      digit_char (hour t div 10), digit_char (hour t mod 10),
      digit_char (minute t div 10), digit_char (minute t mod 10),
      digit_char (second t div 10), digit_char (second t mod 10)]"
proof -
  have "year t mod 100 < 100" "month t < 100" "day t < 100" "hour t < 100"
    "minute t < 100" "second t < 100"
    using valid_datetime_bounds[OF assms] by simp_all
  then show ?thesis
    by (simp add: strftime_def TIME_FILE_FORMAT_def zfill_2)
qed

lemma digit_char_less: "a < 10 \<Longrightarrow> b < 10 \<Longrightarrow> digit_char a < digit_char b \<longleftrightarrow> a < b"
  by (simp add: less_char_def of_char_digit_char)

lemma digit_char_eq: "a < 10 \<Longrightarrow> b < 10 \<Longrightarrow> digit_char a = digit_char b \<longleftrightarrow> a = b"
  by (auto dest: digit_char_inj)

lemma tens_units_less:
  assumes "a0 < 10" and "b0 < (10::nat)"
  shows "10 * a1 + a0 < 10 * b1 + b0 \<longleftrightarrow> a1 < b1 \<or> a1 = b1 \<and> a0 < b0"
proof (cases a1 b1 rule: linorder_cases)
  case less
  then show ?thesis using assms by linarith
next
  case equal
  then show ?thesis by simp
next
  case greater
  then show ?thesis using assms by linarith
qed

lemma tens_units_eq:
  assumes "a0 < 10" and "b0 < (10::nat)"
  shows "10 * a1 + a0 = 10 * b1 + b0 \<longleftrightarrow> a1 = b1 \<and> a0 = b0"
proof (cases a1 b1 rule: linorder_cases)
  case less
  then show ?thesis using assms by linarith
next
  case equal
  then show ?thesis by simp
next
  case greater
  then show ?thesis using assms by linarith
qed

lemma two_digits_less:
  assumes "a < 100" and "b < 100"
  shows "digit_char (a div 10) # digit_char (a mod 10) # r
           < digit_char (b div 10) # digit_char (b mod 10) # s
         \<longleftrightarrow> a < b \<or> a = b \<and> r < s"
proof -
  define a1 a0 b1 b0 where "a1 = a div 10" and "a0 = a mod 10" and "b1 = b div 10" and "b0 = b mod 10"
  have lt: "a1 < 10" "b1 < 10" "a0 < 10" "b0 < 10"
    using assms by (simp_all add: a1_def a0_def b1_def b0_def)
  have a: "a = 10 * a1 + a0" and b: "b = 10 * b1 + b0"
    by (simp_all add: a1_def a0_def b1_def b0_def)
  have less: "a < b \<longleftrightarrow> a1 < b1 \<or> a1 = b1 \<and> a0 < b0"
    unfolding a b using lt(3,4) by (rule tens_units_less)
  have eq: "a = b \<longleftrightarrow> a1 = b1 \<and> a0 = b0"
    unfolding a b using lt(3,4) by (rule tens_units_eq)
  have "digit_char a1 # digit_char a0 # r < digit_char b1 # digit_char b0 # s
     \<longleftrightarrow> a1 < b1 \<or> a1 = b1 \<and> (a0 < b0 \<or> a0 = b0 \<and> r < s)"
    using lt by (simp only: Cons_less_Cons digit_char_less digit_char_eq)
  also have "\<dots> \<longleftrightarrow> a < b \<or> a = b \<and> r < s"
    unfolding less eq by blast
  finally show ?thesis
    by (simp only: a1_def a0_def b1_def b0_def)
qed

subsection \<open>The order of file-name timestamps\<close>

lemma strftime_file_less:
  assumes "valid_datetime t1" and "valid_datetime t2"
  shows "strftime t1 TIME_FILE_FORMAT < strftime t2 TIME_FILE_FORMAT \<longleftrightarrow>
         lex_less [year t1 mod 100, month t1, day t1, hour t1, minute t1, second t1]
                  [year t2 mod 100, month t2, day t2, hour t2, minute t2, second t2]"
proof -
  have b1: "year t1 mod 100 < 100" "month t1 < 100" "day t1 < 100" "hour t1 < 100"
    "minute t1 < 100" "second t1 < 100"
    using valid_datetime_bounds[OF assms(1)] by simp_all
  have b2: "year t2 mod 100 < 100" "month t2 < 100" "day t2 < 100" "hour t2 < 100"
    "minute t2 < 100" "second t2 < 100"
    using valid_datetime_bounds[OF assms(2)] by simp_all
  show ?thesis
    unfolding strftime_file[OF assms(1)] strftime_file[OF assms(2)]
    by (simp only: two_digits_less b1 b2 lex_less.simps not_less_Nil simp_thms)
qed

lemma same_century_less:
  assumes "a div 100 = b div (100::nat)"
  shows "a mod 100 < b mod 100 \<longleftrightarrow> a < b" and "a mod 100 = b mod 100 \<longleftrightarrow> a = b"
proof -
  define q ra rb where "q = a div 100" and "ra = a mod 100" and "rb = b mod 100"
  have a: "a = 100 * q + ra"
    by (simp add: q_def ra_def)
  have "b = 100 * (b div 100) + rb"
    by (simp add: rb_def)
  then have b: "b = 100 * q + rb"
    using assms by (simp add: q_def)
  have "ra < rb \<longleftrightarrow> a < b" and "ra = rb \<longleftrightarrow> a = b"
    unfolding a b by simp_all
  then show "a mod 100 < b mod 100 \<longleftrightarrow> a < b" and "a mod 100 = b mod 100 \<longleftrightarrow> a = b"
    by (simp_all only: ra_def rb_def)
qed

text \<open>
  Claim C8, as amended. For two times of the same century (the same hundreds of the
  year), the compact file-name encoding of the earlier one sorts lexicographically
  before that of the later one when they differ down to the second, and never after it
  when they differ in the microseconds only.
\<close>

theorem file_format_order:
  assumes "valid_datetime t1" and "valid_datetime t2" and "same_century t1 t2"
  shows "(earlier (truncate_seconds t1) (truncate_seconds t2)
            \<longrightarrow> strftime t1 TIME_FILE_FORMAT < strftime t2 TIME_FILE_FORMAT)
       \<and> (earlier t1 t2 \<longrightarrow> strftime t1 TIME_FILE_FORMAT \<le> strftime t2 TIME_FILE_FORMAT)"
proof -
  have c: "year t1 div 100 = year t2 div 100"
    using assms(3) by (simp add: same_century_def)
  note y = same_century_less[OF c]
  have less: "strftime t1 TIME_FILE_FORMAT < strftime t2 TIME_FILE_FORMAT \<longleftrightarrow>
         lex_less [year t1, month t1, day t1, hour t1, minute t1, second t1]
                  [year t2, month t2, day t2, hour t2, minute t2, second t2]"
    unfolding strftime_file_less[OF assms(1,2)] by (simp add: y)
  have eq: "strftime t1 TIME_FILE_FORMAT = strftime t2 TIME_FILE_FORMAT"
    if "year t1 = year t2" "month t1 = month t2" "day t1 = day t2" "hour t1 = hour t2"
      "minute t1 = minute t2" "second t1 = second t2"
    using that by (simp add: strftime_def TIME_FILE_FORMAT_def)
  have 1: "strftime t1 TIME_FILE_FORMAT < strftime t2 TIME_FILE_FORMAT"
    if "earlier (truncate_seconds t1) (truncate_seconds t2)"
    using that unfolding less by (auto simp: earlier_def datetime_key_def truncate_seconds_def)
  have 2: "strftime t1 TIME_FILE_FORMAT \<le> strftime t2 TIME_FILE_FORMAT" if "earlier t1 t2"
  proof (cases "lex_less [year t1, month t1, day t1, hour t1, minute t1, second t1]
                  [year t2, month t2, day t2, hour t2, minute t2, second t2]")
    case True
    then show ?thesis using less by simp
  next
    case False
    with that have "year t1 = year t2 \<and> month t1 = month t2 \<and> day t1 = day t2
        \<and> hour t1 = hour t2 \<and> minute t1 = minute t2 \<and> second t1 = second t2"
      by (auto simp: earlier_def datetime_key_def)
    then show ?thesis using eq by simp
  qed
  from 1 2 show ?thesis by blast
qed

subsection \<open>Reading back what strftime wrote\<close>

lemma in_class_digit_char:
  "k < 10 \<Longrightarrow> in_class lo hi (digit_char k) \<longleftrightarrow> of_char lo \<le> 48 + k \<and> 48 + k \<le> (of_char hi :: nat)"
  by (simp add: in_class_def of_char_digit_char)

lemma digit_val_digit_char: "k < 10 \<Longrightarrow> digit_val (digit_char k) = k"
  by (simp add: digit_val_def of_char_digit_char)

lemma regex_y:
  assumes "a < 10" and "b < 10"
  shows "directive_regex Dir_y (digit_char a # digit_char b # r) = [(10 * a + b, r)]"
  using assms by (simp add: in_class_digit_char digit_val_digit_char)

lemma regex_m:
  assumes "a < 10" and "b < 10" and "1 \<le> 10 * a + b" and "10 * a + b \<le> 12"
  shows "\<exists>alts. directive_regex Dir_m (digit_char a # digit_char b # r) = (10 * a + b, r) # alts"
  using assms by (auto simp: in_class_digit_char digit_val_digit_char)

lemma regex_d:
  assumes "a < 10" and "b < 10" and "1 \<le> 10 * a + b" and "10 * a + b \<le> 31"
  shows "\<exists>alts. directive_regex Dir_d (digit_char a # digit_char b # r) = (10 * a + b, r) # alts"
  using assms by (auto simp: in_class_digit_char digit_val_digit_char)

lemma regex_H:
  assumes "a < 10" and "b < 10" and "10 * a + b < 24"
  shows "\<exists>alts. directive_regex Dir_H (digit_char a # digit_char b # r) = (10 * a + b, r) # alts"
  using assms by (auto simp: in_class_digit_char digit_val_digit_char)

lemma regex_M:
  assumes "a < 10" and "b < 10" and "10 * a + b < 60"
  shows "\<exists>alts. directive_regex Dir_M (digit_char a # digit_char b # r) = (10 * a + b, r) # alts"
  using assms by (auto simp: in_class_digit_char digit_val_digit_char)

lemma regex_S:
  assumes "a < 10" and "b < 10" and "10 * a + b < 60"
  shows "\<exists>alts. directive_regex Dir_S (digit_char a # digit_char b # r) = (10 * a + b, r) # alts"
  using assms by (auto simp: in_class_digit_char digit_val_digit_char)

lemma match_format_head:
  assumes "\<exists>alts. directive_regex d s = (v, r) # alts"
    and "\<exists>more. match_format ds r = (found, rest) # more"
  shows "\<exists>more. match_format (d # ds) s = ((d, v) # found, rest) # more"
  using assms by auto

lemma tens_units:
  assumes "n < 100"
  shows "n div 10 < (10::nat) \<and> n mod 10 < 10 \<and> 10 * (n div 10) + n mod 10 = n"
  using assms by simp

lemma match_format_file:
  assumes "valid_datetime t"
  shows "\<exists>more. match_format TIME_FILE_FORMAT (strftime t TIME_FILE_FORMAT)
     = ([(Dir_y, year t mod 100), (Dir_m, month t), (Dir_d, day t), (Dir_H, hour t),
         (Dir_M, minute t), (Dir_S, second t)], []) # more"
proof -
  note b = valid_datetime_bounds[OF assms]
  have lt: "year t mod 100 < 100" "month t < 100" "day t < 100" "hour t < 100"
    "minute t < 100" "second t < 100"
    using b by simp_all
  have y: "\<exists>alts. directive_regex Dir_y (digit_char (year t mod 100 div 10) # digit_char (year t mod 100 mod 10) # r)
      = (year t mod 100, r) # alts" for r
    using regex_y[of "year t mod 100 div 10" "year t mod 100 mod 10" r] tens_units[OF lt(1)]
    by simp
  have m: "\<exists>alts. directive_regex Dir_m (digit_char (month t div 10) # digit_char (month t mod 10) # r)
      = (month t, r) # alts" for r
    using regex_m[of "month t div 10" "month t mod 10" r] tens_units[OF lt(2)] b by simp
  have d: "\<exists>alts. directive_regex Dir_d (digit_char (day t div 10) # digit_char (day t mod 10) # r)
      = (day t, r) # alts" for r
    using regex_d[of "day t div 10" "day t mod 10" r] tens_units[OF lt(3)] b by simp
  have H: "\<exists>alts. directive_regex Dir_H (digit_char (hour t div 10) # digit_char (hour t mod 10) # r)
      = (hour t, r) # alts" for r
    using regex_H[of "hour t div 10" "hour t mod 10" r] tens_units[OF lt(4)] b by simp
  have M: "\<exists>alts. directive_regex Dir_M (digit_char (minute t div 10) # digit_char (minute t mod 10) # r)
      = (minute t, r) # alts" for r
    using regex_M[of "minute t div 10" "minute t mod 10" r] tens_units[OF lt(5)] b by simp
  have S: "\<exists>alts. directive_regex Dir_S (digit_char (second t div 10) # digit_char (second t mod 10) # r)
      = (second t, r) # alts" for r
    using regex_S[of "second t div 10" "second t mod 10" r] tens_units[OF lt(6)] b by simp
  have e: "\<exists>more. match_format [] [] = ([], []) # more" by simp
  show ?thesis
    unfolding strftime_file[OF assms] unfolding TIME_FILE_FORMAT_def
    by (rule match_format_head y m d H M S e)+
qed

lemma mod_100_offset:
  assumes "k < 100"
  shows "(1900 + k) mod 100 = (k::nat)" and "(2000 + k) mod 100 = (k::nat)"
proof -
  have "(1900 + k) mod 100 = (k + 100 * 19) mod 100" by (simp add: add.commute)
  also have "\<dots> = k mod 100" by (rule mod_mult_self2)
  finally show "(1900 + k) mod 100 = k" using assms by simp
  have "(2000 + k) mod 100 = (k + 100 * 20) mod 100" by (simp add: add.commute)
  also have "\<dots> = k mod 100" by (rule mod_mult_self2)
  finally show "(2000 + k) mod 100 = k" using assms by simp
qed

lemma pivot_year:
  assumes "in_pivot_window t"
  shows "(if year t mod 100 \<le> 68 then year t mod 100 + 2000 else year t mod 100 + 1900) = year t"
proof (cases "year t < 2000")
  case True
  define k where "k = year t - 1900"
  from True assms have k: "year t = 1900 + k" "k < 100" "69 \<le> k"
    by (simp_all add: in_pivot_window_def k_def)
  from k(2) have "year t mod 100 = k"
    unfolding k(1) by (rule mod_100_offset(1))
  with k show ?thesis by simp
next
  case False
  define k where "k = year t - 2000"
  from False assms have k: "year t = 2000 + k" "k < 100" "k \<le> 68"
    by (simp_all add: in_pivot_window_def k_def)
  from k(2) have "year t mod 100 = k"
    unfolding k(1) by (rule mod_100_offset(2))
  with k show ?thesis by simp
qed

lemma strptime_strftime:
  assumes "valid_datetime t" and "in_pivot_window t"
  shows "strptime (strftime t TIME_FILE_FORMAT) TIME_FILE_FORMAT = Inr (truncate_seconds t)"
proof -
  from match_format_file[OF assms(1)] obtain more where
    m: "match_format TIME_FILE_FORMAT (strftime t TIME_FILE_FORMAT)
     = ([(Dir_y, year t mod 100), (Dir_m, month t), (Dir_d, day t), (Dir_H, hour t),
         (Dir_M, minute t), (Dir_S, second t)], []) # more" ..
  have "datetime_new (year t) (month t) (day t) (hour t) (minute t) (second t) 0
      = Inr (truncate_seconds t)"
    using assms(1) by (simp add: datetime_new_def valid_datetime_def truncate_seconds_def)
  then show ?thesis
    by (simp add: strptime_def m strptime_defaults_def pivot_year[OF assms(2)])
qed

subsection \<open>The file name of a backup\<close>

lemma digit_char_not_special:
  assumes "k < 10"
  shows "CHR ''/'' \<noteq> digit_char k" and "CHR ''-'' \<noteq> digit_char k"
    and "CHR 0x00 \<noteq> digit_char k"
proof -
  have k: "(of_char (digit_char k) :: nat) = 48 + k"
    using assms by (rule of_char_digit_char)
  show "CHR ''/'' \<noteq> digit_char k"
  proof
    assume "CHR ''/'' = digit_char k"
    then have "(of_char (CHR ''/'') :: nat) = of_char (digit_char k)" by (rule arg_cong)
    with k show False by simp
  qed
  show "CHR ''-'' \<noteq> digit_char k"
  proof
    assume "CHR ''-'' = digit_char k"
    then have "(of_char (CHR ''-'') :: nat) = of_char (digit_char k)" by (rule arg_cong)
    with k show False by simp
  qed
  show "CHR 0x00 \<noteq> digit_char k"
  proof
    assume "CHR 0x00 = digit_char k"
    then have "(of_char (CHR 0x00) :: nat) = of_char (digit_char k)" by (rule arg_cong)
    with k show False by simp
  qed
qed

lemma strftime_file_chars:
  assumes "valid_datetime t"
  shows "CHR ''/'' \<notin> set (strftime t TIME_FILE_FORMAT)"
    and "CHR ''-'' \<notin> set (strftime t TIME_FILE_FORMAT)"
    and "length (strftime t TIME_FILE_FORMAT) = 12"
    and "CHR 0x00 \<notin> set (strftime t TIME_FILE_FORMAT)"
proof -
  have lt: "year t mod 100 < 100" "month t < 100" "day t < 100" "hour t < 100"
    "minute t < 100" "second t < 100"
    using valid_datetime_bounds[OF assms] by simp_all
  have d: "year t mod 100 div 10 < 10" "year t mod 100 mod 10 < 10"
    "month t div 10 < 10" "month t mod 10 < 10" "day t div 10 < 10" "day t mod 10 < 10"
    "hour t div 10 < 10" "hour t mod 10 < 10" "minute t div 10 < 10" "minute t mod 10 < 10"
    "second t div 10 < 10" "second t mod 10 < 10"
    using lt by simp_all
  show "CHR ''/'' \<notin> set (strftime t TIME_FILE_FORMAT)"
    unfolding strftime_file[OF assms] using d by (simp add: digit_char_not_special)
  show "CHR ''-'' \<notin> set (strftime t TIME_FILE_FORMAT)"
    unfolding strftime_file[OF assms] using d by (simp add: digit_char_not_special)
  show "length (strftime t TIME_FILE_FORMAT) = 12"
    unfolding strftime_file[OF assms] by simp
  show "CHR 0x00 \<notin> set (strftime t TIME_FILE_FORMAT)"
    unfolding strftime_file[OF assms] using d by (simp add: digit_char_not_special)
qed

lemma split_on_absent: "c \<notin> set s \<Longrightarrow> split_on c s = [s]"
  by (induction s) auto

lemma plain_not_absolute: "CHR ''/'' \<notin> set p \<Longrightarrow> \<not> is_absolute p"
  by (cases p) (auto simp: is_absolute_def)

lemma parts_plain: "CHR ''/'' \<notin> set p \<Longrightarrow> p \<noteq> [] \<Longrightarrow> p \<noteq> ''.'' \<Longrightarrow> parts p = [p]"
  by (simp add: parts_def split_on_absent)

lemma path_name_plain: "CHR ''/'' \<notin> set p \<Longrightarrow> p \<noteq> [] \<Longrightarrow> p \<noteq> ''.'' \<Longrightarrow> path_name p = p"
  by (simp add: path_name_def parts_plain plain_not_absolute)

lemma str_path_plain:
  "CHR ''/'' \<notin> set p \<Longrightarrow> p \<noteq> [] \<Longrightarrow> p \<noteq> ''.'' \<Longrightarrow> str_path p = ''files/'' @ p"
  by (simp add: str_path_def parts_plain plain_not_absolute gen_backup_dir_path_def)

lemma child_of_plain:
  "CHR ''/'' \<notin> set p \<Longrightarrow> p \<noteq> [] \<Longrightarrow> p \<noteq> ''.'' \<Longrightarrow> p \<noteq> ''..'' \<Longrightarrow> child_of p = Some p"
  by (simp add: child_of_def parts_plain plain_not_absolute)

lemma entry_key_plain:
  "CHR ''/'' \<notin> set p \<Longrightarrow> p \<noteq> [] \<Longrightarrow> p \<noteq> ''.'' \<Longrightarrow> p \<noteq> ''..'' \<Longrightarrow> entry_key es p = p"
  by (simp add: entry_key_def child_of_plain split: option.splits)

lemma path_stem_suffix:
  assumes "CHR ''/'' \<notin> set body" and "body \<noteq> []"
  shows "path_stem (body @ SAVE_FILE_SUFFIX) = body"
proof -
  let ?p = "body @ ''.sl2''"
  have "path_name ?p = ?p"
    using assms by (intro path_name_plain) auto
  moreover have "rfind (CHR ''.'') ?p = int (length body)"
    by (simp add: rfind_def)
  ultimately show ?thesis
    using assms by (simp add: path_stem_def SAVE_FILE_SUFFIX_def Let_def)
qed

lemma str_partition_dash:
  assumes "CHR ''-'' \<notin> set ts"
  shows "str_partition (CHR ''-'') (ts @ (if name \<noteq> [] then ''-'' else []) @ name)
         = (ts, (if name \<noteq> [] then ''-'' else []), name)"
proof -
  have nd: "\<forall>x \<in> set ts. x \<noteq> CHR ''-''"
    using assms by auto
  show ?thesis
  proof (cases "name = []")
    case True
    have dw: "dropWhile (\<lambda>x. x \<noteq> CHR ''-'') ts = []"
      using nd by (simp only: dropWhile_eq_Nil_conv)
    show ?thesis
      unfolding str_partition_def using True
      by (simp only: dw append_Nil2 if_False list.case simp_thms)
  next
    case False
    have "dropWhile (\<lambda>x. x \<noteq> CHR ''-'') (ts @ CHR ''-'' # name) = CHR ''-'' # name"
      using nd by (induction ts) auto
    moreover have "takeWhile (\<lambda>x. x \<noteq> CHR ''-'') (ts @ CHR ''-'' # name) = ts"
      using nd by (induction ts) auto
    ultimately show ?thesis using False by (simp add: str_partition_def)
  qed
qed

lemma backup_file_name_parts:
  assumes "valid_datetime t" and "plain_name name"
  shows "CHR ''/'' \<notin> set (backup_file_name name t)"
    and "endswith SAVE_FILE_SUFFIX (backup_file_name name t)"
    and "timestamp_segment (backup_file_name name t) = strftime t TIME_FILE_FORMAT"
    and "backup_name (backup_at (backup_file_name name t)) = name"
proof -
  let ?ts = "strftime t TIME_FILE_FORMAT"
  let ?body = "?ts @ (if name \<noteq> [] then ''-'' else []) @ name"
  note c = strftime_file_chars[OF assms(1)]
  have p: "backup_file_name name t = ?body @ SAVE_FILE_SUFFIX"
    by (simp add: backup_file_name_def)
  have body: "CHR ''/'' \<notin> set ?body" "?body \<noteq> []"
    using c(1,3) assms(2) by (auto simp: plain_name_def)
  show "CHR ''/'' \<notin> set (backup_file_name name t)"
    unfolding p using body by (simp add: SAVE_FILE_SUFFIX_def)
  show "endswith SAVE_FILE_SUFFIX (backup_file_name name t)"
    unfolding p by (simp add: endswith_def)
  have stem: "path_stem (backup_file_name name t) = ?body"
    unfolding p using body by (rule path_stem_suffix)
  show "timestamp_segment (backup_file_name name t) = ?ts"
    by (simp add: timestamp_segment_def stem str_partition_dash[OF c(2)])
  show "backup_name (backup_at (backup_file_name name t)) = name"
    by (simp add: backup_name_def stem str_partition_dash[OF c(2)])
qed

lemma backup_file_name_plain:
  assumes "valid_datetime t" and "plain_name name"
  shows "CHR 0x00 \<notin> set (backup_file_name name t)"
    and "length (backup_file_name name t)
         = 12 + length (if name \<noteq> [] then ''-'' else []) + length name + 4"
    and "backup_file_name name t \<noteq> []" and "backup_file_name name t \<noteq> ''.''"
    and "backup_file_name name t \<noteq> ''..''"
proof -
  note c = strftime_file_chars[OF assms(1)]
  show "CHR 0x00 \<notin> set (backup_file_name name t)"
    using c(4) assms(2) by (simp add: backup_file_name_def plain_name_def SAVE_FILE_SUFFIX_def)
  show l: "length (backup_file_name name t)
         = 12 + length (if name \<noteq> [] then ''-'' else []) + length name + 4"
    using c(3) by (simp add: backup_file_name_def SAVE_FILE_SUFFIX_def)
  then have "16 \<le> length (backup_file_name name t)" by simp
  then show "backup_file_name name t \<noteq> []" "backup_file_name name t \<noteq> ''.''"
    "backup_file_name name t \<noteq> ''..''"
    by auto
qed

subsection \<open>Writing a backup and listing again\<close>

lemma all_backups_listed_iff:
  "all_backups_listed w \<longleftrightarrow> (\<forall>f \<in> set (glob w). path_is_file w f = Inr True \<and> parses f)"
  by (simp add: all_backups_listed_def list_all_iff)

lemma all_backups_listed_entries:
  "all_backups_listed w \<longleftrightarrow>
     (\<forall>f \<in> set (glob w). map_of (entries w) f \<noteq> Some Directory \<and> parses f)"
proof -
  have "path_is_file w f = Inr True \<longleftrightarrow> map_of (entries w) f \<noteq> Some Directory"
    if "f \<in> set (glob w)" for f
  proof -
    from that have "map_of (entries w) f \<noteq> None" by (auto dest: glob_listed)
    then show ?thesis by (simp add: path_is_file_listed)
  qed
  then show ?thesis by (auto simp: all_backups_listed_iff)
qed

lemma backups_all_listed:
  assumes "all_backups_listed w"
  shows "backups w = (map backup_at (glob w), None)"
proof -
  have "\<forall>f \<in> set (glob w). Backup w f = Inr (backup_at f)"
  proof
    fix f assume "f \<in> set (glob w)"
    with assms have "path_is_file w f = Inr True" and "parses f"
      by (simp_all add: all_backups_listed_iff)
    then show "Backup w f = Inr (backup_at f)"
      by (simp add: Backup_parses passes_guard_def)
  qed
  then show ?thesis
    using backups_from_append[of "glob w" w "[]"] by (simp add: backups_def)
qed

lemma map_of_inserted:
  "map_of (take k es @ [(p, v)] @ drop k es) f =
     (if f = p then (case map_of (take k es) p of None \<Rightarrow> Some v | Some x \<Rightarrow> Some x)
      else map_of es f)"
proof -
  have "map_of es f = map_of (take k es @ drop k es) f" by simp
  then show ?thesis
    by (auto simp: map_add_def simp del: append_take_drop_id split: option.splits)
qed

lemma map_of_take_None: "map_of es p = None \<Longrightarrow> map_of (take k es) p = None"
  by (auto simp: map_of_eq_None_iff dest: in_set_takeD)

lemma map_of_overwritten:
  "map_of (map (\<lambda>(k, v). if k = p then (k, x) else (k, v)) es) f =
     (if f = p then (case map_of es p of None \<Rightarrow> None | Some _ \<Rightarrow> Some x) else map_of es f)"
  by (induction es) (auto split: option.splits)

lemma fst_overwritten: "map fst (map (\<lambda>(k, v). if k = p then (k, x) else (k, v)) es) = map fst es"
  by (induction es) auto

lemma os_stat_NullByte: "os_stat w p = Inl NullByte \<Longrightarrow> CHR 0x00 \<in> set p"
  by (auto simp: os_stat_def split: option.splits if_splits sum.splits)

lemma passes_guard_no_directory: "passes_guard w p \<Longrightarrow> os_stat w p \<noteq> Inr Directory"
  by (auto simp: passes_guard_def path_exists_def path_is_file_def)

text \<open>Where a file is put: a child of the backup directory that has a plain name.\<close>

lemma put_file_plain:
  assumes "CHR ''/'' \<notin> set p" and "p \<noteq> []" and "p \<noteq> ''.''" and "p \<noteq> ''..''"
  shows "put_file w p c =
     (case map_of (entries w) p of
        Some _ \<Rightarrow>
          w\<lparr>entries := map (\<lambda>(k, v). if k = p then (k, RegularFile c) else (k, v)) (entries w)\<rparr>
      | None \<Rightarrow>
          w\<lparr>entries := take (slot w) (entries w) @ [(p, RegularFile c)]
                         @ drop (slot w) (entries w)\<rparr>)"
  by (simp add: put_file_def entry_key_plain[OF assms] child_of_plain[OF assms] Let_def
      split: option.splits)

lemma write_file_plain:
  assumes "CHR ''/'' \<notin> set p" and "p \<noteq> []" and "p \<noteq> ''.''" and "p \<noteq> ''..''"
    and "CHR 0x00 \<notin> set p" and "passes_guard w p"
    and "os_refuses w CopyTo (BackupPath (str_path p)) = None"
  shows "write_file w (BackupPath p) c = Inr (put_file w p c)"
proof -
  have "os_stat w p \<noteq> Inl NullByte"
    using assms(5) by (auto dest: os_stat_NullByte)
  moreover have "os_stat w p \<noteq> Inr Directory"
    using assms(6) by (rule passes_guard_no_directory)
  ultimately show ?thesis
    using assms(7)
    by (simp add: write_file_def split: sum.splits failure.splits node.splits)
qed

lemma put_file_listed:
  assumes listed: "all_backups_listed w"
    and p: "parses p" "endswith SAVE_FILE_SUFFIX p" "CHR ''/'' \<notin> set p" "p \<noteq> ''..''"
  shows "all_backups_listed (put_file w p c) \<and> p \<in> set (glob (put_file w p c))"
proof -
  from p(2) have "4 \<le> length p" by (simp add: endswith_def SAVE_FILE_SUFFIX_def)
  then have ne: "p \<noteq> []" "p \<noteq> ''.''" by auto
  note put = put_file_plain[OF p(3) ne p(4), of w c]
  show ?thesis
  proof (cases "map_of (entries w) p")
    case None
    define es' where
      "es' = take (slot w) (entries w) @ [(p, RegularFile c)] @ drop (slot w) (entries w)"
    have w: "put_file w p c = w\<lparr>entries := es'\<rparr>"
      using None by (simp add: put es'_def)
    have look: "map_of es' f = (if f = p then Some (RegularFile c) else map_of (entries w) f)" for f
      unfolding es'_def by (simp only: map_of_inserted map_of_take_None[OF None] option.case)
    have names: "set (map fst es') = insert p (set (map fst (entries w)))"
    proof -
      have "set (map fst (entries w))
          = set (map fst (take (slot w) (entries w) @ drop (slot w) (entries w)))"
        by simp
      then show ?thesis unfolding es'_def by (simp del: append_take_drop_id)
    qed
    have g: "set (glob (w\<lparr>entries := es'\<rparr>)) = insert p (set (glob w))"
      using p(2) names by (auto simp: glob_def)
    have "all_backups_listed (w\<lparr>entries := es'\<rparr>)"
      using listed p(1) unfolding all_backups_listed_entries g
      by (auto simp: look)
    with w g show ?thesis by simp
  next
    case (Some n)
    then have "p \<in> set (map fst (entries w))"
      by (auto dest: map_of_SomeD intro: rev_image_eqI)
    with p(2) have pg: "p \<in> set (glob w)" by (simp add: glob_def)
    define es' where
      "es' = map (\<lambda>(k, v). if k = p then (k, RegularFile c) else (k, v)) (entries w)"
    have w: "put_file w p c = w\<lparr>entries := es'\<rparr>"
      using Some by (simp add: put es'_def)
    have look: "map_of es' f = (if f = p then Some (RegularFile c) else map_of (entries w) f)" for f
      unfolding es'_def using Some by (simp add: map_of_overwritten)
    have "map fst es' = map fst (entries w)"
      unfolding es'_def by (rule fst_overwritten)
    then have g: "glob (w\<lparr>entries := es'\<rparr>) = glob w"
      by (simp add: glob_def)
    have "all_backups_listed (w\<lparr>entries := es'\<rparr>)"
      using listed unfolding all_backups_listed_entries g
      by (auto simp: look)
    with w g pg show ?thesis by simp
  qed
qed

lemma create_passes:
  assumes "valid_datetime t" and "in_pivot_window t" and "plain_name name"
    and "passes_guard w (backup_file_name name t)"
  shows "create w (Some name) (Some t) = Inr (backup_at (backup_file_name name t))"
proof -
  let ?p = "backup_file_name name t"
  note parts = backup_file_name_parts[OF assms(1,3)]
  have "parses ?p"
    by (simp add: parses_def parts(3) strptime_strftime[OF assms(1,2)])
  with assms(4) have "Backup w ?p = Inr (backup_at ?p)"
    by (rule Backup_parses)
  then show ?thesis
    by (simp add: create_def backup_file_name_def Let_def)
qed

lemma save_plain:
  assumes "CHR ''/'' \<notin> set p" and "p \<noteq> []" and "p \<noteq> ''.''" and "p \<noteq> ''..''"
    and "CHR 0x00 \<notin> set p" and "takes_backup w p" and "save_data w = Some c"
  shows "save w (backup_at p) = Inr (put_file w p c)"
proof -
  have "\<not> null_byte w (BackupPath p)"
    using assms(5) by (auto dest: os_stat_NullByte)
  moreover have "read_file w SavePath = Inr c"
    using assms(6,7) by (simp add: read_file_def takes_backup_def)
  moreover have "write_file w (BackupPath p) c = Inr (put_file w p c)"
    using assms(1-6) by (intro write_file_plain) (simp_all add: takes_backup_def)
  ultimately show ?thesis
    by (simp add: save_def copy_file_def)
qed

text \<open>
  Claim C3, as amended. For a name without a path separator and without a null byte, and
  a time whose year lies in 1969 to 2068; in a directory where every entry with the
  save-file suffix is a regular file with a timestamp that parses; with the save file in
  place; and when the file system takes the backup (the existence test on the new path
  answers and finds nothing or a regular file, and the operating system refuses neither
  to read the save file nor to write the copy): \<^verbatim>\<open>create\<close> returns a backup,
  \<^verbatim>\<open>save\<close> writes it, and listing the directory again yields that backup, whose
  name is the given name and whose time is the given time truncated to whole seconds.
\<close>

theorem create_save_list_roundtrip:
  assumes "valid_datetime t" and "in_pivot_window t" and "plain_name name"
    and "all_backups_listed w" and "save_data w = Some c"
    and "takes_backup w (backup_file_name name t)"
  shows "\<exists>b w' bs. create w (Some name) (Some t) = Inr b \<and> save w b = Inr w'
            \<and> backups w' = (bs, None) \<and> b \<in> set bs
            \<and> backup_name b = name \<and> backup_time b = Inr (truncate_seconds t)"
proof -
  let ?p = "backup_file_name name t"
  note parts = backup_file_name_parts[OF assms(1,3)]
  note plain = backup_file_name_plain[OF assms(1,3)]
  have time: "backup_time (backup_at ?p) = Inr (truncate_seconds t)"
    by (simp add: backup_time_segment parts(3) strptime_strftime[OF assms(1,2)])
  then have parses: "parses ?p"
    by (simp add: parses_def backup_time_segment[symmetric])
  have c: "create w (Some name) (Some t) = Inr (backup_at ?p)"
    using assms(1,2,3) assms(6) by (intro create_passes) (simp_all add: takes_backup_def)
  have s: "save w (backup_at ?p) = Inr (put_file w ?p c)"
    using parts(1) plain(3,4,5,1) assms(6,5) by (rule save_plain)
  from put_file_listed[OF assms(4) parses parts(2) parts(1) plain(5), of c]
  have w': "all_backups_listed (put_file w ?p c)" "?p \<in> set (glob (put_file w ?p c))"
    by simp_all
  have l: "backups (put_file w ?p c) = (map backup_at (glob (put_file w ?p c)), None)"
    using w'(1) by (rule backups_all_listed)
  have "backup_at ?p \<in> set (map backup_at (glob (put_file w ?p c)))"
    using w'(2) by simp
  with c s l parts(4) time show ?thesis by blast
qed

subsection \<open>Witnesses and counterexamples for the naming scheme\<close>

lemma digit_chars:
  "digit_char 0 = CHR ''0''" "digit_char 1 = CHR ''1''" "digit_char 2 = CHR ''2''"
  "digit_char 3 = CHR ''3''" "digit_char 4 = CHR ''4''" "digit_char 5 = CHR ''5''"
  "digit_char 6 = CHR ''6''" "digit_char 7 = CHR ''7''" "digit_char 8 = CHR ''8''"
  "digit_char 9 = CHR ''9''" "digit_char (Suc 0) = CHR ''1''"
  by code_simp+

lemmas datetime_eval =
  valid_datetime_def days_in_month_def is_leap_def in_pivot_window_def same_century_def
  earlier_def datetime_key_def truncate_seconds_def example_time_def
  example_time_next_second_def example_time_next_microsecond_def last_second_of_1999_def
  first_second_of_2000_def new_year_1950_def new_year_2050_def

lemma valid_examples:
  "valid_datetime example_time" "valid_datetime example_time_next_second"
  "valid_datetime example_time_next_microsecond" "valid_datetime last_second_of_1999"
  "valid_datetime first_second_of_2000" "valid_datetime new_year_1950"
  by (simp_all add: datetime_eval)

lemma strftime_examples:
  "strftime example_time TIME_FILE_FORMAT = ''250203040506''"
  "strftime example_time_next_second TIME_FILE_FORMAT = ''250203040507''"
  "strftime example_time_next_microsecond TIME_FILE_FORMAT = ''250203040506''"
  "strftime last_second_of_1999 TIME_FILE_FORMAT = ''991231235959''"
  "strftime first_second_of_2000 TIME_FILE_FORMAT = ''000101000000''"
  "strftime new_year_1950 TIME_FILE_FORMAT = ''500101000000''"
  by (simp_all add: strftime_file valid_examples)
     (simp_all add: datetime_eval digit_chars)

theorem file_format_order_witness:
  "valid_datetime example_time \<and> valid_datetime example_time_next_second
   \<and> valid_datetime example_time_next_microsecond
   \<and> same_century example_time example_time_next_second
   \<and> same_century example_time example_time_next_microsecond
   \<and> earlier (truncate_seconds example_time) (truncate_seconds example_time_next_second)
   \<and> strftime example_time TIME_FILE_FORMAT < strftime example_time_next_second TIME_FILE_FORMAT
   \<and> earlier example_time example_time_next_microsecond
   \<and> strftime example_time TIME_FILE_FORMAT
       \<le> strftime example_time_next_microsecond TIME_FILE_FORMAT"
proof -
  have c1: "same_century example_time example_time_next_second"
    and c2: "same_century example_time example_time_next_microsecond"
    and e1: "earlier (truncate_seconds example_time) (truncate_seconds example_time_next_second)"
    and e2: "earlier example_time example_time_next_microsecond"
    by (simp_all add: datetime_eval)
  have r1: "strftime example_time TIME_FILE_FORMAT
      < strftime example_time_next_second TIME_FILE_FORMAT"
    using file_format_order[OF valid_examples(1) valid_examples(2) c1] e1 by blast
  have r2: "strftime example_time TIME_FILE_FORMAT
      \<le> strftime example_time_next_microsecond TIME_FILE_FORMAT"
    using file_format_order[OF valid_examples(1) valid_examples(3) c2] e2 by blast
  from valid_examples(1,2,3) c1 c2 e1 r1 e2 r2 show ?thesis by (intro conjI)
qed

theorem file_format_order_counterexample:
  "valid_datetime last_second_of_1999 \<and> valid_datetime first_second_of_2000
   \<and> earlier last_second_of_1999 first_second_of_2000
   \<and> strftime last_second_of_1999 TIME_FILE_FORMAT = ''991231235959''
   \<and> strftime first_second_of_2000 TIME_FILE_FORMAT = ''000101000000''
   \<and> \<not> strftime last_second_of_1999 TIME_FILE_FORMAT
         < strftime first_second_of_2000 TIME_FILE_FORMAT
   \<and> earlier example_time example_time_next_microsecond
   \<and> \<not> strftime example_time TIME_FILE_FORMAT
         < strftime example_time_next_microsecond TIME_FILE_FORMAT"
proof -
  have e: "earlier last_second_of_1999 first_second_of_2000"
    "earlier example_time example_time_next_microsecond"
    by (simp_all add: datetime_eval)
  have n1: "\<not> strftime last_second_of_1999 TIME_FILE_FORMAT
         < strftime first_second_of_2000 TIME_FILE_FORMAT"
    by (simp add: strftime_examples)
  have n2: "\<not> strftime example_time TIME_FILE_FORMAT
         < strftime example_time_next_microsecond TIME_FILE_FORMAT"
    by (simp add: strftime_examples)
  from valid_examples(4,5) e(1) strftime_examples(4,5) n1 e(2) n2 show ?thesis
    by (intro conjI)
qed

lemma backup_file_name_examples:
  "backup_file_name ''checkpoint'' example_time = ''250203040506-checkpoint.sl2''"
  "backup_file_name [] example_time = ''250203040506.sl2''"
  "backup_file_name [] new_year_1950 = ''500101000000.sl2''"
  by (simp_all add: backup_file_name_def strftime_examples SAVE_FILE_SUFFIX_def)

lemma create_unfold:
  "create w (Some name) (Some t) = Backup w (backup_file_name name t)"
  by (simp add: create_def backup_file_name_def Let_def)

lemma parses_more_examples:
  "parses ''500101000000.sl2''" "parses ''250203040506.sl2''" "\<not> parses ''000000000000.sl2''"
  by (simp_all add: path_eval strptime_eval parses_def)

lemma backup_time_1950:
  "backup_time (backup_at ''500101000000.sl2'') = Inr new_year_2050"
  by (simp add: backup_time_segment path_eval strptime_eval new_year_2050_def)

subsection \<open>The example file system, evaluated\<close>

lemma below_plain:
  "CHR ''/'' \<notin> set p \<Longrightarrow> p \<noteq> [] \<Longrightarrow> p \<noteq> ''.'' \<Longrightarrow> p \<noteq> ''..'' \<Longrightarrow> below (str_path p) = Some [p]"
  by (simp add: str_path_plain below_def split_on_absent gen_backup_dir_path_def)

text \<open>
  A plain name that is not listed: in the example file system nothing is there, unless
  the name is too long.
\<close>

lemma os_stat_unlisted:
  assumes "CHR ''/'' \<notin> set p" and "p \<noteq> []" and "p \<noteq> ''.''" and "p \<noteq> ''..''"
    and "CHR 0x00 \<notin> set p"
    and "map_of (entries w) p = None" and "elsewhere w = posix_stat es" and "map_of es p = None"
  shows "os_stat w p =
     Inl (if name_max < length p then Errno 36 ''File name too long''
          else Errno 2 ''No such file or directory'')"
  using assms(5,6,7,8)
  by (simp add: os_stat_def entry_key_plain[OF assms(1-4)]
      posix_stat_def below_plain[OF assms(1-4)])

lemma copy_unlisted:
  assumes "CHR ''/'' \<notin> set p" and "p \<noteq> []" and "p \<noteq> ''.''" and "p \<noteq> ''..''"
    and "os_refuses w = posix_refuses es" and "map_of es p = None"
  shows "os_refuses w CopyTo (BackupPath (str_path p)) =
     (if name_max < length p then Some (36, ''File name too long'') else None)"
  using assms(5,6)
  by (simp add: posix_refuses_def posix_stat_def below_plain[OF assms(1-4)])

lemma path_exists_unlisted:
  assumes "CHR ''/'' \<notin> set p" and "p \<noteq> []" and "p \<noteq> ''.''" and "p \<noteq> ''..''"
    and "CHR 0x00 \<notin> set p"
    and "map_of (entries w) p = None" and "elsewhere w = posix_stat es" and "map_of es p = None"
  shows "path_exists w p =
     (if name_max < length p then Inl (Error OSError [''36'', ''File name too long''])
      else Inr False)"
  by (simp add: path_exists_def os_stat_unlisted[OF assms] os_error_def errno_class_def
      show_nat_errno)

lemma takes_backup_unlisted:
  assumes "CHR ''/'' \<notin> set p" and "p \<noteq> []" and "p \<noteq> ''.''" and "p \<noteq> ''..''"
    and "CHR 0x00 \<notin> set p"
    and "map_of (entries w) p = None" and "elsewhere w = posix_stat es" and "map_of es p = None"
    and "os_refuses w = posix_refuses es" and "length p \<le> name_max"
  shows "takes_backup w p"
proof -
  have "path_exists w p = Inr False"
    using assms(10) by (simp add: path_exists_unlisted[OF assms(1-8)])
  moreover have "os_refuses w CopyTo (BackupPath (str_path p)) = None"
    using assms(10) by (simp add: copy_unlisted[OF assms(1-4,9,8)])
  moreover have "os_refuses w ReadFrom SavePath = None"
    by (simp add: assms(9) posix_refuses_def)
  ultimately show ?thesis
    by (simp add: takes_backup_def passes_guard_def)
qed

lemma world_of_oracles [simp]:
  "elsewhere (world_of es) = posix_stat es" "os_refuses (world_of es) = posix_refuses es"
  "slot (world_of es) = 0" "save_data (world_of es) = Some ''save''"
  by (simp_all add: world_of_def)

lemma all_backups_listed_examples:
  "all_backups_listed (world_of two_backups)" "all_backups_listed (world_of [])"
  unfolding all_backups_listed_entries glob_examples
  by (simp_all add: parses_examples entries_eval)

text \<open>A name of 300 characters, and the file name of its backup at the example time.\<close>

lemma long_name:
  "plain_name (replicate 300 (CHR ''x''))"
  "length (backup_file_name (replicate 300 (CHR ''x'')) example_time) = 317"
  "timestamp_segment (backup_file_name (replicate 300 (CHR ''x'')) example_time) = ''250203040506''"
  "path_exists (world_of []) (backup_file_name (replicate 300 (CHR ''x'')) example_time)
     = Inl (Error OSError [''36'', ''File name too long''])"
proof -
  let ?p = "backup_file_name (replicate 300 (CHR ''x'')) example_time"
  show plain: "plain_name (replicate 300 (CHR ''x''))"
    by (simp add: plain_name_def)
  note parts = backup_file_name_parts[OF valid_examples(1) plain]
  note facts = backup_file_name_plain[OF valid_examples(1) plain]
  show l: "length ?p = 317"
    by (simp add: facts(2))
  show "timestamp_segment ?p = ''250203040506''"
    by (simp add: parts(3) strftime_examples)
  have "path_exists (world_of []) ?p =
     (if name_max < length ?p then Inl (Error OSError [''36'', ''File name too long''])
      else Inr False)"
    using parts(1) facts(3,4,5,1) by (rule path_exists_unlisted[where es = "[]"]) simp_all
  then show "path_exists (world_of []) ?p = Inl (Error OSError [''36'', ''File name too long''])"
    by (simp add: l name_max_def)
qed

lemma strptime_example_time:
  "strptime ''250203040506'' TIME_FILE_FORMAT = Inr (truncate_seconds example_time)"
proof -
  have "strptime (strftime example_time TIME_FILE_FORMAT) TIME_FILE_FORMAT
      = Inr (truncate_seconds example_time)"
    by (rule strptime_strftime) (simp_all add: valid_examples datetime_eval)
  then show ?thesis by (simp only: strftime_examples)
qed

subsection \<open>Witness and counterexample for the round trip\<close>

theorem create_save_list_roundtrip_witness:
  "valid_datetime example_time \<and> in_pivot_window example_time \<and> plain_name ''checkpoint''
   \<and> all_backups_listed (world_of two_backups)
   \<and> save_data (world_of two_backups) = Some ''save''
   \<and> takes_backup (world_of two_backups) (backup_file_name ''checkpoint'' example_time)
   \<and> create (world_of two_backups) (Some ''checkpoint'') (Some example_time)
       = Inr (backup_at ''250203040506-checkpoint.sl2'')
   \<and> save (world_of two_backups) (backup_at ''250203040506-checkpoint.sl2'')
       = Inr ((world_of two_backups)
               \<lparr>entries := (''250203040506-checkpoint.sl2'', RegularFile ''save'') # two_backups\<rparr>)
   \<and> snd (backups ((world_of two_backups)
               \<lparr>entries := (''250203040506-checkpoint.sl2'', RegularFile ''save'') # two_backups\<rparr>))
       = None
   \<and> backup_at ''250203040506-checkpoint.sl2''
       \<in> set (fst (backups ((world_of two_backups)
               \<lparr>entries := (''250203040506-checkpoint.sl2'', RegularFile ''save'')
                             # two_backups\<rparr>)))
   \<and> backup_name (backup_at ''250203040506-checkpoint.sl2'') = ''checkpoint''
   \<and> backup_time (backup_at ''250203040506-checkpoint.sl2'') = Inr (truncate_seconds example_time)"
proof -
  let ?w = "world_of two_backups"
  let ?p = "''250203040506-checkpoint.sl2''"
  let ?b = "backup_at ?p"
  let ?w' = "?w\<lparr>entries := (?p, RegularFile ''save'') # two_backups\<rparr>"
  have h: "in_pivot_window example_time" "plain_name ''checkpoint''"
    "save_data ?w = Some ''save''"
    by (simp_all add: datetime_eval plain_name_def)
  have n: "backup_file_name ''checkpoint'' example_time = ?p"
    by (simp add: backup_file_name_examples)
  have t: "takes_backup ?w ?p"
    by (rule takes_backup_unlisted[where es = two_backups])
       (simp_all add: entries_eval name_max_def)
  then have tn: "takes_backup ?w (backup_file_name ''checkpoint'' example_time)"
    by (simp only: n)
  from create_save_list_roundtrip[OF valid_examples(1) h(1) h(2) all_backups_listed_examples(1)
      h(3) tn]
  obtain b w' bs where r: "create ?w (Some ''checkpoint'') (Some example_time) = Inr b"
    "save ?w b = Inr w'" "backups w' = (bs, None)" "b \<in> set bs"
    "backup_name b = ''checkpoint''" "backup_time b = Inr (truncate_seconds example_time)"
    by blast
  have c: "create ?w (Some ''checkpoint'') (Some example_time) = Inr ?b"
    using create_passes[OF valid_examples(1) h(1) h(2), of ?w] t
    by (simp add: n takes_backup_def)
  with r(1) have b: "b = ?b" by simp
  have "save ?w ?b = Inr (put_file ?w ?p ''save'')"
    by (rule save_plain[OF _ _ _ _ _ t]) simp_all
  moreover have "put_file ?w ?p ''save'' = ?w'"
    by (subst put_file_plain) (simp_all add: entries_eval)
  ultimately have s: "save ?w ?b = Inr ?w'" by simp
  with r(2) b have w': "w' = ?w'" by simp
  from r(3,4) have l: "snd (backups ?w') = None" "?b \<in> set (fst (backups ?w'))"
    unfolding b w' by simp_all
  from valid_examples(1) h(1,2) all_backups_listed_examples(1) h(3) tn c s l r(5,6)[unfolded b]
  show ?thesis by (intro conjI)
qed

text \<open>
  Against claim C3 as it was stated: a time of the year 1950 comes back as the year
  2050; an entry that does not parse and is enumerated before the new file hides it from
  the listing; a name of 300 characters is refused by the file system when the new path
  is tested; a name with a null byte is refused when the copy is written.
\<close>

theorem create_save_list_roundtrip_counterexample:
  "valid_datetime new_year_1950
   \<and> create (world_of []) (Some []) (Some new_year_1950) = Inr (backup_at ''500101000000.sl2'')
   \<and> save (world_of []) (backup_at ''500101000000.sl2'')
       = Inr ((world_of [])\<lparr>entries := [(''500101000000.sl2'', RegularFile ''save'')]\<rparr>)
   \<and> backups ((world_of [])\<lparr>entries := [(''500101000000.sl2'', RegularFile ''save'')]\<rparr>)
       = ([backup_at ''500101000000.sl2''], None)
   \<and> backup_time (backup_at ''500101000000.sl2'') = Inr new_year_2050
   \<and> new_year_2050 \<noteq> truncate_seconds new_year_1950
   \<and> valid_datetime example_time
   \<and> create ((world_of [month_zero_file])\<lparr>slot := 1\<rparr>) (Some []) (Some example_time)
       = Inr (backup_at ''250203040506.sl2'')
   \<and> save ((world_of [month_zero_file])\<lparr>slot := 1\<rparr>) (backup_at ''250203040506.sl2'')
       = Inr ((world_of [month_zero_file])
               \<lparr>slot := 1,
                entries := [month_zero_file, (''250203040506.sl2'', RegularFile ''save'')]\<rparr>)
   \<and> backups ((world_of [month_zero_file])
               \<lparr>slot := 1,
                entries := [month_zero_file, (''250203040506.sl2'', RegularFile ''save'')]\<rparr>)
       = ([], None)
   \<and> create (world_of []) (Some (replicate 300 (CHR ''x''))) (Some example_time)
       = Inl (Error OSError [''36'', ''File name too long''])
   \<and> create (world_of []) (Some [CHR 0x00]) (Some example_time)
       = Inr (backup_at (''250203040506-'' @ [CHR 0x00] @ ''.sl2''))
   \<and> save (world_of []) (backup_at (''250203040506-'' @ [CHR 0x00] @ ''.sl2''))
       = Inl (Error ValueError [''embedded null byte''])"
proof -
  let ?p1 = "''500101000000.sl2''"
  let ?w1 = "(world_of [])\<lparr>entries := [(?p1, RegularFile ''save'')]\<rparr>"
  have t1: "takes_backup (world_of []) ?p1"
    by (rule takes_backup_unlisted[where es = "[]"]) (simp_all add: name_max_def)
  have c1: "create (world_of []) (Some []) (Some new_year_1950) = Inr (backup_at ?p1)"
    using t1 by (simp add: create_unfold backup_file_name_examples Backup_parses
        parses_more_examples takes_backup_def)
  have "save (world_of []) (backup_at ?p1) = Inr (put_file (world_of []) ?p1 ''save'')"
    by (rule save_plain[OF _ _ _ _ _ t1]) simp_all
  moreover have "put_file (world_of []) ?p1 ''save'' = ?w1"
    by (subst put_file_plain) simp_all
  ultimately have s1: "save (world_of []) (backup_at ?p1) = Inr ?w1" by simp
  have g1: "glob ?w1 = [?p1]"
    by (simp add: glob_def SAVE_FILE_SUFFIX_def endswith_def)
  have l1: "backups ?w1 = ([backup_at ?p1], None)"
    unfolding backups_def g1
    by (simp add: Backup_parses parses_more_examples passes_guard_listed)
  have n: "new_year_2050 \<noteq> truncate_seconds new_year_1950"
    by (simp add: datetime_eval)
  let ?p2 = "''250203040506.sl2''"
  let ?w = "(world_of [month_zero_file])\<lparr>slot := 1\<rparr>"
  let ?w' = "(world_of [month_zero_file])
               \<lparr>slot := 1, entries := [month_zero_file, (?p2, RegularFile ''save'')]\<rparr>"
  have t2: "takes_backup ?w ?p2"
    by (rule takes_backup_unlisted[where es = "[month_zero_file]"])
       (simp_all add: name_max_def month_zero_file_def)
  have c2: "create ?w (Some []) (Some example_time) = Inr (backup_at ?p2)"
    using t2 by (simp add: create_unfold backup_file_name_examples Backup_parses
        parses_more_examples takes_backup_def)
  have "save ?w (backup_at ?p2) = Inr (put_file ?w ?p2 ''save'')"
    by (rule save_plain[OF _ _ _ _ _ t2]) simp_all
  moreover have "put_file ?w ?p2 ''save'' = ?w'"
    by (subst put_file_plain) (simp_all add: month_zero_file_def)
  ultimately have s2: "save ?w (backup_at ?p2) = Inr ?w'" by simp
  have g2: "glob ?w' = [''000000000000.sl2'', ?p2]"
    by (simp add: glob_def month_zero_file_def SAVE_FILE_SUFFIX_def endswith_def)
  have pg: "passes_guard ?w' ''000000000000.sl2''"
    by (simp add: passes_guard_listed month_zero_file_def)
  obtain e where "Backup ?w' ''000000000000.sl2'' = Inl e" "kind e = ValueError"
    using Backup_not_parses[OF pg parses_more_examples(3)] by blast
  then have l2: "backups ?w' = ([], None)"
    unfolding backups_def g2 by simp
  have c3: "create (world_of []) (Some (replicate 300 (CHR ''x''))) (Some example_time)
       = Inl (Error OSError [''36'', ''File name too long''])"
    by (simp add: create_unfold Backup_exists_error[OF long_name(4)])
  let ?p4 = "''250203040506-'' @ [CHR 0x00] @ ''.sl2''"
  have st: "os_stat (world_of []) ?p4 = Inl NullByte"
    by (simp add: os_stat_def)
  have "passes_guard (world_of []) ?p4"
    using st by (simp add: passes_guard_def path_exists_def)
  moreover have "parses ?p4"
    by (simp add: path_eval strptime_eval parses_def)
  ultimately have "Backup (world_of []) ?p4 = Inr (backup_at ?p4)"
    by (rule Backup_parses)
  then have c4: "create (world_of []) (Some [CHR 0x00]) (Some example_time) = Inr (backup_at ?p4)"
    by (simp add: create_unfold backup_file_name_def strftime_examples SAVE_FILE_SUFFIX_def)
  have s4: "save (world_of []) (backup_at ?p4) = Inl (Error ValueError [''embedded null byte''])"
    using st by (simp add: save_def copy_file_def)
  from valid_examples(6) c1 s1 l1 backup_time_1950 n valid_examples(1) c2 s2 l2 c3 c4 s4
  show ?thesis by (intro conjI)
qed

subsection \<open>Witness and counterexample for the construction\<close>

theorem Backup_construction_witness:
  "not_regular (world_of [backup_like_directory]) ''250103000000.sl2''
   \<and> Backup (world_of [backup_like_directory]) ''250103000000.sl2''
       = Inl (Error IsADirectoryError [''files/250103000000.sl2''])
   \<and> passes_guard (world_of [junk_file]) ''junk.sl2''
   \<and> strptime (timestamp_segment ''junk.sl2'') TIME_FILE_FORMAT
       = Inl (Error ValueError
               [''time data '' @ repr ''junk'' @ '' does not match format ''
                @ repr ''%y%m%d%H%M%S''])
   \<and> Backup (world_of [junk_file]) ''junk.sl2''
       = Inl (Error ValueError
               [''time data '' @ repr ''junk'' @ '' does not match format ''
                @ repr ''%y%m%d%H%M%S''])
   \<and> path_exists (world_of []) ''250203040506-checkpoint.sl2'' = Inr False
   \<and> strptime (timestamp_segment ''250203040506-checkpoint.sl2'') TIME_FILE_FORMAT
       = Inr (truncate_seconds example_time)
   \<and> Backup (world_of []) ''250203040506-checkpoint.sl2''
       = Inr (backup_at ''250203040506-checkpoint.sl2'')
   \<and> path_exists (world_of []) (backup_file_name (replicate 300 (CHR ''x'')) example_time)
       = Inl (Error OSError [''36'', ''File name too long''])
   \<and> Backup (world_of []) (backup_file_name (replicate 300 (CHR ''x'')) example_time)
       = Inl (Error OSError [''36'', ''File name too long''])"
proof -
  let ?e = "Error ValueError
              [''time data '' @ repr ''junk'' @ '' does not match format ''
               @ repr ''%y%m%d%H%M%S'']"
  let ?long = "backup_file_name (replicate 300 (CHR ''x'')) example_time"
  let ?o = "Error OSError [''36'', ''File name too long'']"
  have a: "not_regular (world_of [backup_like_directory]) ''250103000000.sl2''"
    by (simp add: not_regular_listed entries_eval)
  have b: "passes_guard (world_of [junk_file]) ''junk.sl2''"
    by (simp add: passes_guard_listed entries_eval)
  have c: "strptime (timestamp_segment ''junk.sl2'') TIME_FILE_FORMAT = Inl ?e"
    by (simp add: path_eval strptime_eval)
  have "path_exists (world_of []) ''250203040506-checkpoint.sl2''
      = (if name_max < length ''250203040506-checkpoint.sl2'' then Inl ?o else Inr False)"
    by (rule path_exists_unlisted[where es = "[]"]) simp_all
  then have d: "path_exists (world_of []) ''250203040506-checkpoint.sl2'' = Inr False"
    by (simp add: name_max_def)
  have e: "strptime (timestamp_segment ''250203040506-checkpoint.sl2'') TIME_FILE_FORMAT
       = Inr (truncate_seconds example_time)"
    by (simp add: path_eval strptime_eval world_eval)
  have s: "str_path ''250103000000.sl2'' = ''files/250103000000.sl2''"
    by (simp add: path_eval)
  have r1: "Backup (world_of [backup_like_directory]) ''250103000000.sl2''
       = Inl (Error IsADirectoryError [str_path ''250103000000.sl2''])"
    using Backup_construction[of "world_of [backup_like_directory]" "''250103000000.sl2''"] a
    by blast
  have r2: "Backup (world_of [junk_file]) ''junk.sl2'' = Inl ?e"
    using Backup_construction[of "world_of [junk_file]" "''junk.sl2''" ?e] b c
    by blast
  have r3: "Backup (world_of []) ''250203040506-checkpoint.sl2''
       = Inr (backup_at ''250203040506-checkpoint.sl2'')"
    using Backup_construction[of "world_of []" "''250203040506-checkpoint.sl2''" _
        "truncate_seconds example_time"] d e
    by blast
  have r4: "Backup (world_of []) ?long = Inl ?o"
    using Backup_construction[of "world_of []" ?long _ _ ?o] long_name(4)
    by blast
  from a r1[unfolded s] b c r2 d e r3 long_name(4) r4 show ?thesis
    by (intro conjI)
qed

text \<open>
  Against claim C7 as it was stated: a directory whose name does not parse, also when it
  is written with a leading \<^verbatim>\<open>./\<close>, makes the construction fail with
  \<^verbatim>\<open>IsADirectoryError\<close> and not with the parse error; and in an empty backup
  directory a path whose timestamp segment parses and whose name has more than 255
  characters makes the construction fail with the \<^verbatim>\<open>OSError\<close> of the existence
  test.
\<close>

theorem Backup_construction_counterexample:
  "not_regular (world_of [junk_directory]) ''junk.sl2''
   \<and> isl (strptime (timestamp_segment ''junk.sl2'') TIME_FILE_FORMAT)
   \<and> Backup (world_of [junk_directory]) ''junk.sl2''
       = Inl (Error IsADirectoryError [''files/junk.sl2''])
   \<and> Backup (world_of [junk_directory]) ''./junk.sl2''
       = Inl (Error IsADirectoryError [''files/junk.sl2''])
   \<and> kind (Error IsADirectoryError [''files/junk.sl2'']) \<noteq> ValueError
   \<and> entries (world_of []) = []
   \<and> strptime (timestamp_segment (backup_file_name (replicate 300 (CHR ''x'')) example_time))
         TIME_FILE_FORMAT
       = Inr (truncate_seconds example_time)
   \<and> Backup (world_of []) (backup_file_name (replicate 300 (CHR ''x'')) example_time)
       = Inl (Error OSError [''36'', ''File name too long''])"
proof -
  have a: "not_regular (world_of [junk_directory]) ''junk.sl2''"
    by (simp add: not_regular_listed entries_eval)
  have b: "isl (strptime (timestamp_segment ''junk.sl2'') TIME_FILE_FORMAT)"
    by (simp add: path_eval strptime_eval)
  have c: "Backup (world_of [junk_directory]) ''junk.sl2''
       = Inl (Error IsADirectoryError [''files/junk.sl2''])"
    using Backup_not_regular[OF a] by (simp add: str_path_examples)
  have "os_stat (world_of [junk_directory]) ''./junk.sl2'' = Inr Directory"
    by (simp add: os_stat_def entry_key_def child_of_def is_absolute_def parts_def
        entries_eval)
  then have "not_regular (world_of [junk_directory]) ''./junk.sl2''"
    by (simp add: not_regular_def path_exists_def path_is_file_def)
  from Backup_not_regular[OF this]
  have d: "Backup (world_of [junk_directory]) ''./junk.sl2''
       = Inl (Error IsADirectoryError [''files/junk.sl2''])"
    by (simp add: path_eval)
  have e: "strptime (timestamp_segment (backup_file_name (replicate 300 (CHR ''x'')) example_time))
         TIME_FILE_FORMAT = Inr (truncate_seconds example_time)"
    by (simp only: long_name(3) strptime_example_time)
  have f: "Backup (world_of []) (backup_file_name (replicate 300 (CHR ''x'')) example_time)
       = Inl (Error OSError [''36'', ''File name too long''])"
    using long_name(4) by (rule Backup_exists_error)
  from a b c d e f show ?thesis by simp
qed

end
